theory Spec2Isabelle
  imports Complex_Main "HOL-Library.Log_Nat" "HOL-Library.Word" "HOL-Library.Code_Target_Nat"
begin

section \<open>JavaScript values\<close>

text \<open>
  A string is a list of characters, each standing for the code unit of the same
  number (so code units from 0 to 255 only).

  The values the request layer handles as data: parsed JSON bodies and the
  \<^verbatim>\<open>type\<close>, \<^verbatim>\<open>provider\<close> and \<^verbatim>\<open>details\<close> properties of error objects. A number is
  NaN or an integer from \<open>-2^53\<close> to \<open>2^53 - 1\<close>, held in a 54-bit word that is read
  as signed: each of them is a double and prints as its decimal digits, and 0
  stands for both zeros. Other numbers are not values of this type. An object is
  the list of its own properties and has no property that is a function.
\<close>

type_synonym js_int = "54 word"

datatype js_value =
    JUndefined
  | JNull
  | JBool bool
  | JNum js_int
  | JNaN
  | JStr string
  | JArr "js_value list"
  | JObj "(string \<times> js_value) list"

text \<open>ToBoolean: what \<^verbatim>\<open>!v\<close>, \<^verbatim>\<open>v || w\<close> and \<^verbatim>\<open>if (v)\<close> test.\<close>

fun truthy :: "js_value \<Rightarrow> bool" where
  "truthy JUndefined = False"
| "truthy JNull = False"
| "truthy (JBool b) = b"
| "truthy (JNum n) = (n \<noteq> 0)"
| "truthy JNaN = False"
| "truthy (JStr s) = (s \<noteq> [])"
| "truthy (JArr xs) = True"
| "truthy (JObj kvs) = True"

text \<open>\<^verbatim>\<open>Array.prototype.join\<close> on strings.\<close>

fun join :: "string \<Rightarrow> string list \<Rightarrow> string" where
  "join sep [] = []"
| "join sep [x] = x"
| "join sep (x # y # ys) = x @ sep @ join sep (y # ys)"

text \<open>Number::toString for an integer below \<open>2^53\<close> in magnitude: its decimal digits.\<close>

fun decimal :: "nat \<Rightarrow> string \<Rightarrow> string" where
  "decimal n acc =
     (let acc' = (''0123456789'' ! (n mod 10)) # acc
      in if n div 10 = 0 then acc' else decimal (n div 10) acc')"

definition number_to_string :: "int \<Rightarrow> string" where
  "number_to_string i = (if i < 0 then CHR ''-'' # decimal (nat (- i)) [] else decimal (nat i) [])"

declare decimal.simps [simp del]

text \<open>
  An error object: an \<^verbatim>\<open>Error\<close> with its \<^verbatim>\<open>name\<close> and \<^verbatim>\<open>message\<close> and the three
  properties \<^verbatim>\<open>_createError\<close> adds, which are \<^verbatim>\<open>undefined\<close> on an error from elsewhere.
\<close>

record js_error =
  err_name :: string
  err_message :: string
  err_type :: js_value
  err_provider :: js_value
  err_details :: js_value

definition type_error :: "string \<Rightarrow> js_error" where
  "type_error msg =
     \<lparr>err_name = ''TypeError'', err_message = msg, err_type = JUndefined,
      err_provider = JUndefined, err_details = JUndefined\<rparr>"

text \<open>
  ToString, as a template literal \<^verbatim>\<open>`${v}`\<close> applies it; it can throw. An object is
  converted by its \<^verbatim>\<open>toString\<close> method. A data object inherits the method of
  \<^verbatim>\<open>Object.prototype\<close> unless it has an own property of that name; the own property
  is not a function, the \<^verbatim>\<open>valueOf\<close> that is tried next gives no primitive, and the
  conversion throws a TypeError (the message is the one V8 prints). An array
  joins the conversions of its elements, the first that throws ending it.
\<close>

fun to_string :: "js_value \<Rightarrow> js_error + string"
  and elements_to_strings :: "js_value list \<Rightarrow> js_error + string list" where
  "to_string JUndefined = Inr ''undefined''"
| "to_string JNull = Inr ''null''"
| "to_string (JBool b) = Inr (if b then ''true'' else ''false'')"
| "to_string (JNum n) = Inr (number_to_string (sint n))"
| "to_string JNaN = Inr ''NaN''"
| "to_string (JStr s) = Inr s"
| "to_string (JArr xs) =
     (case elements_to_strings xs of Inl e \<Rightarrow> Inl e | Inr ss \<Rightarrow> Inr (join '','' ss))"
| "to_string (JObj kvs) =
     (if map_of kvs ''toString'' = None then Inr ''[object Object]''
      else Inl (type_error ''Cannot convert object to primitive value''))"
| "elements_to_strings [] = Inr []"
| "elements_to_strings (x # xs) =
     (case (if x = JUndefined \<or> x = JNull then Inr [] else to_string x) of
        Inl e \<Rightarrow> Inl e
      | Inr s \<Rightarrow> (case elements_to_strings xs of Inl e \<Rightarrow> Inl e | Inr ss \<Rightarrow> Inr (s # ss)))"

text \<open>
  Reading a property of a data value. Reading from \<^verbatim>\<open>null\<close> or \<^verbatim>\<open>undefined\<close> throws a
  TypeError (the message is the one V8 prints); an object gives its own property
  or \<^verbatim>\<open>undefined\<close>; the properties of primitives and arrays, and inherited ones, are
  not modelled and read as \<^verbatim>\<open>undefined\<close>, which is what the two names the executor
  reads, \<^verbatim>\<open>error\<close> and \<^verbatim>\<open>message\<close>, give there.
\<close>

fun get_prop :: "js_value \<Rightarrow> string \<Rightarrow> js_error + js_value" where
  "get_prop JUndefined k =
     Inl (type_error (''Cannot read properties of undefined (reading '' @ [CHR 0x27] @ k @ [CHR 0x27] @ '')''))"
| "get_prop JNull k =
     Inl (type_error (''Cannot read properties of null (reading '' @ [CHR 0x27] @ k @ [CHR 0x27] @ '')''))"
| "get_prop (JObj kvs) k = Inr (case map_of kvs k of None \<Rightarrow> JUndefined | Some v \<Rightarrow> v)"
| "get_prop v k = Inr JUndefined"

text \<open>\<^verbatim>\<open>String.prototype.includes\<close>: does \<open>sub\<close> occur in \<open>s\<close>?\<close>

fun str_includes :: "string \<Rightarrow> string \<Rightarrow> bool" where
  "str_includes [] sub = (sub = [])"
| "str_includes (c # cs) sub = (take (length sub) (c # cs) = sub \<or> str_includes cs sub)"

subsection \<open>Objects with a prototype\<close>

text \<open>
  The value of a property of any object: data, or some other value (a function, a
  built-in object, a symbol, a number that the data type leaves out). Every other
  value is truthy, but for the BigInt zero, which is not modelled.
\<close>

datatype js_any = Data js_value | Other

fun truthy_any :: "js_any \<Rightarrow> bool" where
  "truthy_any (Data v) = truthy v"
| "truthy_any Other = True"

text \<open>
  An object is its own properties and its prototype (\<open>None\<close> for \<^verbatim>\<open>null\<close>). An own
  property holds a value; \<open>ProtoGetter\<close> is the accessor \<^verbatim>\<open>__proto__\<close> of
  \<^verbatim>\<open>Object.prototype\<close>, which gives the prototype of the object that is read. Other
  accessors are not modelled.
\<close>

datatype slot = Holds js_any | ProtoGetter

datatype js_object = Object "(string \<times> slot) list" "js_object option"

fun prototype_of :: "js_object \<Rightarrow> js_object option" where
  "prototype_of (Object props proto) = proto"

text \<open>The first holder of the name along the prototype chain.\<close>

fun find_slot :: "js_object \<Rightarrow> string \<Rightarrow> slot option" where
  "find_slot (Object props proto) k =
     (case map_of props k of
        Some sl \<Rightarrow> Some sl
      | None \<Rightarrow> (case proto of None \<Rightarrow> None | Some parent \<Rightarrow> find_slot parent k))"

text \<open>\<^verbatim>\<open>obj[k]\<close>: the value found along the chain, \<^verbatim>\<open>undefined\<close> when there is none.\<close>

definition read_property :: "js_object \<Rightarrow> string \<Rightarrow> js_any" where
  "read_property obj k =
     (case find_slot obj k of
        None \<Rightarrow> Data JUndefined
      | Some (Holds v) \<Rightarrow> v
      | Some ProtoGetter \<Rightarrow> (case prototype_of obj of None \<Rightarrow> Data JNull | Some parent \<Rightarrow> Other))"

text \<open>\<^verbatim>\<open>Object.prototype\<close>: its methods, the constructor and the accessor.\<close>

definition prototype_methods :: "string list" where
  "prototype_methods =
     [''constructor'', ''hasOwnProperty'', ''isPrototypeOf'', ''propertyIsEnumerable'',
      ''toLocaleString'', ''toString'', ''valueOf'', ''__defineGetter__'', ''__defineSetter__'',
      ''__lookupGetter__'', ''__lookupSetter__'']"

definition Object_prototype :: js_object where
  "Object_prototype =
     Object (map (\<lambda>k. (k, Holds Other)) prototype_methods @ [(''__proto__'', ProtoGetter)]) None"

text \<open>The object an object literal with data properties makes.\<close>

definition object_literal :: "(string \<times> js_value) list \<Rightarrow> js_object" where
  "object_literal props =
     Object (map (\<lambda>(k, v). (k, Holds (Data v))) props) (Some Object_prototype)"


section \<open>Numbers passed to timers\<close>

subsection \<open>Doubles\<close>

text \<open>
  The arithmetic of the code is that of IEEE 754 doubles. A finite double is the
  real number it stands for; an operation gives the exact result rounded to the
  nearest double, ties to the even significand. \<open>binade x\<close> is the exponent \<open>e\<close>
  with \<open>2^e \<le> x < 2^(e+1)\<close> of a positive \<open>x\<close>, \<open>ulp x\<close> the distance between the
  doubles around \<open>x\<close> (that of the subnormal numbers below \<open>2^-1022\<close>), and \<open>fl x\<close>
  the double nearest to \<open>x\<close>, before overflow is looked at.
\<close>

definition binade :: "real \<Rightarrow> int" where
  "binade x = (if 1 \<le> x then bitlen \<lfloor>x\<rfloor> - 1 else - bitlen (\<lceil>1 / x\<rceil> - 1))"

definition round_even :: "real \<Rightarrow> int" where
  "round_even x =
     (let f = \<lfloor>x\<rfloor>; d = x - of_int f
      in if d < 1 / 2 then f else if 1 / 2 < d then f + 1 else if even f then f else f + 1)"

definition ulp :: "real \<Rightarrow> real" where
  "ulp x = 2 powi (max (binade \<bar>x\<bar>) (- 1022) - 52)"

definition fl :: "real \<Rightarrow> real" where
  "fl x = of_int (round_even (x / ulp x)) * ulp x"

text \<open>
  A JavaScript number as a timer sees it: a finite double, NaN or an infinity. A
  result that rounds to \<open>2^1024\<close> or beyond is an infinity.
\<close>

datatype js_number = Num real | NaN | PosInfinity | NegInfinity

definition to_number :: "real \<Rightarrow> js_number" where
  "to_number x =
     (let y = fl x
      in if 2 ^ 1024 \<le> y then PosInfinity else if y \<le> - (2 ^ 1024) then NegInfinity else Num y)"

text \<open>\<^verbatim>\<open>n * 1000\<close>.\<close>

fun times_1000 :: "js_number \<Rightarrow> js_number" where
  "times_1000 (Num x) = to_number (x * 1000)"
| "times_1000 NaN = NaN"
| "times_1000 PosInfinity = PosInfinity"
| "times_1000 NegInfinity = NegInfinity"

subsection \<open>\<^verbatim>\<open>parseInt\<close> with no radix\<close>

text \<open>
  White space among the code units up to 255: tab, line feed, vertical tab, form
  feed, carriage return, space and the no-break space.
\<close>

definition is_white_space :: "char \<Rightarrow> bool" where
  "is_white_space c =
     (c \<in> {CHR 0x09, CHR 0x0A, CHR 0x0B, CHR 0x0C, CHR 0x0D, CHR 0x20, CHR 0xA0})"

definition digit_value :: "char \<Rightarrow> nat option" where
  "digit_value c =
     (let n = (of_char c :: nat) in
      if 48 \<le> n \<and> n \<le> 57 then Some (n - 48)
      else if 97 \<le> n \<and> n \<le> 122 then Some (n - 87)
      else if 65 \<le> n \<and> n \<le> 90 then Some (n - 55)
      else None)"

definition is_digit :: "nat \<Rightarrow> char \<Rightarrow> bool" where
  "is_digit radix c = (case digit_value c of None \<Rightarrow> False | Some d \<Rightarrow> d < radix)"

definition digits_value :: "nat \<Rightarrow> string \<Rightarrow> nat" where
  "digits_value radix ds =
     foldl (\<lambda>acc c. radix * acc + (case digit_value c of None \<Rightarrow> 0 | Some d \<Rightarrow> d)) 0 ds"

text \<open>
  The integer the string denotes. Leading white space is skipped, then an optional
  sign, then an optional \<^verbatim>\<open>0x\<close> prefix selects radix 16; the longest run of digits
  is read and whatever follows is ignored. \<open>None\<close>: there is no digit at all.
\<close>

definition parse_integer :: "string \<Rightarrow> int option" where
  "parse_integer s =
     (let t = dropWhile is_white_space s;
          neg = (t \<noteq> [] \<and> hd t = CHR ''-'');
          u = (if t \<noteq> [] \<and> (hd t = CHR ''-'' \<or> hd t = CHR ''+'') then tl t else t);
          hex = (take 2 u = ''0x'' \<or> take 2 u = ''0X'');
          radix = (if hex then 16 else 10);
          v = (if hex then drop 2 u else u);
          ds = takeWhile (is_digit radix) v
      in if ds = [] then None
         else Some ((if neg then - 1 else 1) * int (digits_value radix ds)))"

text \<open>
  \<^verbatim>\<open>parseInt\<close> gives NaN when there is no digit and otherwise the Number value of
  the integer: the nearest double. (An engine may read a decimal string of more
  than 20 significant digits less exactly; that freedom is not modelled.)
\<close>

definition parseInt :: "string \<Rightarrow> js_number" where
  "parseInt s = (case parse_integer s of None \<Rightarrow> NaN | Some n \<Rightarrow> to_number (of_int n))"


section \<open>The request executor (\<^verbatim>\<open>BaseAPIClient\<close>)\<close>

subsection \<open>Error kinds and the client\<close>

definition RATE_LIMIT :: string where "RATE_LIMIT = ''RATE_LIMIT''"
definition AUTH_ERROR :: string where "AUTH_ERROR = ''AUTH_ERROR''"
definition NETWORK_ERROR :: string where "NETWORK_ERROR = ''NETWORK_ERROR''"
definition VALIDATION_ERROR :: string where "VALIDATION_ERROR = ''VALIDATION_ERROR''"
definition STORAGE_ERROR :: string where "STORAGE_ERROR = ''STORAGE_ERROR''"
definition GENERIC_ERROR :: string where "GENERIC_ERROR = ''GENERIC_ERROR''"

text \<open>The fields the constructor stores; \<open>timeout\<close> is in milliseconds.\<close>

record client =
  apiKey :: string
  baseURL :: string
  provider :: string
  timeout :: js_int

text \<open>\<^verbatim>\<open>_createError\<close>: a fresh \<^verbatim>\<open>Error\<close> (so its name is \<^verbatim>\<open>Error\<close>) with three more properties.\<close>

definition createError :: "client \<Rightarrow> string \<Rightarrow> string \<Rightarrow> js_value \<Rightarrow> js_error" where
  "createError c ty msg det =
     \<lparr>err_name = ''Error'', err_message = msg, err_type = JStr ty,
      err_provider = JStr (provider c), err_details = det\<rparr>"

subsection \<open>\<^verbatim>\<open>_getExponentialBackoff\<close>\<close>

text \<open>
  \<open>r\<close> is the value \<^verbatim>\<open>Math.random()\<close> returns in this call, a double in \<open>[0, 1)\<close>.
  The product \<^verbatim>\<open>baseDelay * Math.pow(2, attempt)\<close> is exact until it overflows, and
  then the minimum is \<open>maxDelay\<close> all the same; the product with 1000 and the sum
  are rounded.
\<close>

definition getExponentialBackoff :: "nat \<Rightarrow> real \<Rightarrow> real" where
  "getExponentialBackoff attempt r =
     (let baseDelay = 1000;
          maxDelay = 30000;
          delay = min (baseDelay * 2 ^ attempt) maxDelay
      in fl (delay + fl (r * 1000)))"

subsection \<open>\<^verbatim>\<open>_validateParams\<close>\<close>

text \<open>
  \<^verbatim>\<open>params[key]\<close> reads the property along the prototype chain of the object. The
  function returns nothing or throws.
\<close>

definition validateParams :: "client \<Rightarrow> js_object \<Rightarrow> string list \<Rightarrow> js_error + unit" where
  "validateParams c params required =
     (let missing = filter (\<lambda>key. \<not> truthy_any (read_property params key)) required
      in if length missing > 0
         then Inl (createError c VALIDATION_ERROR
                     (''Missing required parameters: '' @ join '', '' missing)
                     (JObj [(''missing'', JArr (map JStr missing))]))
         else Inr ())"

subsection \<open>One network attempt\<close>

text \<open>
  What \<^verbatim>\<open>fetch\<close> gives in one attempt. A response carries the properties the code
  reads: \<open>retry_after\<close> is \<^verbatim>\<open>headers.get('retry-after')\<close> (\<open>None\<close> for \<^verbatim>\<open>null\<close>) and
  \<open>json\<close> is what \<^verbatim>\<open>response.json()\<close> settles to, \<open>Inl\<close> being a rejection. In the
  Fetch API \<open>ok\<close> holds exactly for the statuses 200 to 299. A rejected \<^verbatim>\<open>fetch\<close>
  carries the error thrown; the abort at the timeout rejects it with an error
  named \<^verbatim>\<open>AbortError\<close>.
\<close>

record response =
  status :: js_int
  ok :: bool
  statusText :: string
  retry_after :: "string option"
  json :: "js_error + js_value"

datatype fetch_outcome = Resolves response | Rejects js_error

text \<open>
  \<^verbatim>\<open>errorData.error?.message || errorData.message || response.statusText\<close>.
  The first property read throws when the body is \<^verbatim>\<open>null\<close>.
\<close>

definition errorMessage :: "js_value \<Rightarrow> string \<Rightarrow> js_error + js_value" where
  "errorMessage errorData stext =
     (case get_prop errorData ''error'' of
        Inl e \<Rightarrow> Inl e
      | Inr er \<Rightarrow>
         (case (if er = JUndefined \<or> er = JNull then Inr JUndefined else get_prop er ''message'') of
            Inl e \<Rightarrow> Inl e
          | Inr m1 \<Rightarrow>
             if truthy m1 then Inr m1
             else (case get_prop errorData ''message'' of
                     Inl e \<Rightarrow> Inl e
                   | Inr m2 \<Rightarrow> if truthy m2 then Inr m2 else Inr (JStr stext))))"

text \<open>
  The \<^verbatim>\<open>try\<close> block of one iteration, after \<^verbatim>\<open>fetch\<close> has settled. It returns the
  parsed body, or sleeps and continues (the 429 branch), or throws (\<open>Inl\<close>) into
  the \<^verbatim>\<open>catch\<close> block: an error it has made, a rejection, or the TypeError of a
  property read or of the template literal that builds the message.
\<close>

datatype try_result = Return js_value | Continue js_number

definition rate_limit_delay :: "string option \<Rightarrow> nat \<Rightarrow> real \<Rightarrow> js_number" where
  "rate_limit_delay retryAfter attempt r =
     (case retryAfter of
        None \<Rightarrow> Num (getExponentialBackoff attempt r)
      | Some h \<Rightarrow>
          if h \<noteq> [] then times_1000 (parseInt h)
          else Num (getExponentialBackoff attempt r))"

definition try_block ::
  "client \<Rightarrow> fetch_outcome \<Rightarrow> nat \<Rightarrow> int \<Rightarrow> real \<Rightarrow> js_error + try_result" where
  "try_block c outcome attempt retries r =
     (case outcome of
        Rejects e \<Rightarrow> Inl e
      | Resolves resp \<Rightarrow>
          if status resp = 429 then
            (let retryAfter = retry_after resp;
                 delay = rate_limit_delay retryAfter attempt r
             in if int attempt < retries then Inr (Continue delay)
                else Inl (createError c RATE_LIMIT ''Rate limit exceeded''
                           (JObj [(''status'', JNum (status resp)),
                                  (''retryAfter'', case retryAfter of None \<Rightarrow> JNull | Some h \<Rightarrow> JStr h)])))
          else if status resp = 401 \<or> status resp = 403 then
            Inl (createError c AUTH_ERROR ''Authentication failed''
                   (JObj [(''status'', JNum (status resp))]))
          else if \<not> ok resp then
            (let errorData = (case json resp of Inl e \<Rightarrow> JObj [] | Inr v \<Rightarrow> v)
             in case errorMessage errorData (statusText resp) of
                  Inl e \<Rightarrow> Inl e
                | Inr m \<Rightarrow>
                    (case to_string m of
                       Inl e \<Rightarrow> Inl e
                     | Inr text \<Rightarrow>
                         Inl (createError c GENERIC_ERROR (''API error: '' @ text)
                                (JObj [(''status'', JNum (status resp)), (''data'', errorData)]))))
          else (case json resp of Inl e \<Rightarrow> Inl e | Inr responseData \<Rightarrow> Inr (Return responseData)))"

text \<open>
  The \<^verbatim>\<open>catch\<close> block, after \<^verbatim>\<open>lastError = error\<close>: it throws out of the function,
  sleeps and continues, or falls out of the block so that the loop goes on to its
  increment.
\<close>

datatype catch_result = Throw js_error | SleepContinue js_number | FallThrough

definition catch_block ::
  "client \<Rightarrow> string \<Rightarrow> js_error \<Rightarrow> nat \<Rightarrow> int \<Rightarrow> real \<Rightarrow> catch_result" where
  "catch_block c url error attempt retries r =
     (if err_type error = JStr AUTH_ERROR then Throw error
      else if err_type error = JStr VALIDATION_ERROR then Throw error
      else if err_name error = ''AbortError'' then
        (if int attempt < retries then SleepContinue (Num (getExponentialBackoff attempt r))
         else Throw (createError c NETWORK_ERROR ''Request timed out''
                       (JObj [(''timeout'', JNum (timeout c))])))
      else if err_name error = ''TypeError'' \<and> str_includes (err_message error) ''fetch'' then
        (if int attempt < retries then SleepContinue (Num (getExponentialBackoff attempt r))
         else Throw (createError c NETWORK_ERROR (''Network error: '' @ err_message error)
                       (JObj [(''originalError'', JStr (err_message error)), (''url'', JStr url)])))
      else if truthy (err_type error) then Throw error
      else if int attempt < retries then SleepContinue (Num (getExponentialBackoff attempt r))
      else FallThrough)"

text \<open>
  The error that comes from below the executor in one attempt, if there is one:
  the rejection of \<^verbatim>\<open>fetch\<close>; on an ok response, the rejection of
  \<^verbatim>\<open>response.json()\<close>; on a response that is not ok (and not 429, 401 or 403), the
  TypeError of reading a property of a \<^verbatim>\<open>null\<close> body or of converting the message
  to a string.
\<close>

fun raw_error :: "fetch_outcome \<Rightarrow> js_error option" where
  "raw_error (Rejects e) = Some e"
| "raw_error (Resolves resp) =
     (if status resp = 429 \<or> status resp = 401 \<or> status resp = 403 then None
      else if \<not> ok resp then
        (case errorMessage (case json resp of Inl e \<Rightarrow> JObj [] | Inr v \<Rightarrow> v) (statusText resp) of
           Inl e \<Rightarrow> Some e
         | Inr m \<Rightarrow> (case to_string m of Inl e \<Rightarrow> Some e | Inr text \<Rightarrow> None))
      else (case json resp of Inl e \<Rightarrow> Some e | Inr v \<Rightarrow> None))"

text \<open>An error that \<^verbatim>\<open>_createError\<close> of this client made with one of the four kinds the executor uses.\<close>

definition made_here :: "client \<Rightarrow> js_error \<Rightarrow> bool" where
  "made_here c e =
     (err_name e = ''Error'' \<and> err_provider e = JStr (provider c)
      \<and> err_type e \<in> {JStr RATE_LIMIT, JStr AUTH_ERROR, JStr NETWORK_ERROR, JStr GENERIC_ERROR})"

text \<open>
  The outcomes of an attempt that the executor retries. A 429 response is rate
  limiting; \<open>retry_after_hint\<close> is its header when that is a non-empty string, and
  the hint is in seconds when it denotes an integer \<open>s\<close> with \<open>s * 1000\<close> of
  magnitude at most \<open>2^53\<close>, so that the product is exact. A rejection named
  \<^verbatim>\<open>AbortError\<close> (the timeout), or a \<^verbatim>\<open>TypeError\<close> whose message mentions \<^verbatim>\<open>fetch\<close>, is
  the network failure the executor recognises, unless it is typed \<^verbatim>\<open>AUTH_ERROR\<close> or
  \<^verbatim>\<open>VALIDATION_ERROR\<close>. Any other rejection without a truthy type is retried as
  well, unrecognised.
\<close>

fun rate_limited :: "fetch_outcome \<Rightarrow> bool" where
  "rate_limited (Resolves resp) = (status resp = 429)"
| "rate_limited (Rejects e) = False"

fun retry_after_hint :: "fetch_outcome \<Rightarrow> string option" where
  "retry_after_hint (Resolves resp) =
     (if status resp = 429
      then (case retry_after resp of None \<Rightarrow> None | Some h \<Rightarrow> if h \<noteq> [] then Some h else None)
      else None)"
| "retry_after_hint (Rejects e) = None"

definition seconds_hint :: "string \<Rightarrow> bool" where
  "seconds_hint h =
     (case parse_integer h of None \<Rightarrow> False | Some s \<Rightarrow> \<bar>s\<bar> * 1000 \<le> 2 ^ 53)"

fun network_failure :: "fetch_outcome \<Rightarrow> bool" where
  "network_failure (Resolves resp) = False"
| "network_failure (Rejects e) =
     (err_type e \<noteq> JStr AUTH_ERROR \<and> err_type e \<noteq> JStr VALIDATION_ERROR
      \<and> (err_name e = ''AbortError''
           \<or> (err_name e = ''TypeError'' \<and> str_includes (err_message e) ''fetch'')))"

fun unrecognised_failure :: "fetch_outcome \<Rightarrow> bool" where
  "unrecognised_failure (Resolves resp) = False"
| "unrecognised_failure (Rejects e) =
     (\<not> truthy (err_type e) \<and> err_name e \<noteq> ''AbortError''
      \<and> \<not> (err_name e = ''TypeError'' \<and> str_includes (err_message e) ''fetch''))"

subsection \<open>\<^verbatim>\<open>_makeRequest\<close>\<close>

text \<open>
  A run is observed through the calls to \<^verbatim>\<open>fetch\<close> and to \<^verbatim>\<open>_sleep\<close>, in order, and
  through its result: the value returned (\<open>Inr\<close>) or the value thrown (\<open>Inl\<close>),
  which is \<^verbatim>\<open>undefined\<close> (\<open>None\<close>) when \<^verbatim>\<open>lastError\<close> was never assigned.
  \<open>env i\<close> is what \<^verbatim>\<open>fetch\<close> gives in attempt \<open>i\<close> and \<open>rnd i\<close> the value of
  \<^verbatim>\<open>Math.random()\<close> drawn in that attempt (an attempt computes at most one
  backoff). The request body is taken to be serialisable.
\<close>

datatype event = NetworkCall nat | Sleep js_number

type_synonym run_result = "event list \<times> (js_error option + js_value)"

definition emit :: "event list \<Rightarrow> run_result \<Rightarrow> run_result" where
  "emit evs res = (evs @ fst res, snd res)"

function makeRequest_loop ::
  "client \<Rightarrow> string \<Rightarrow> (nat \<Rightarrow> fetch_outcome) \<Rightarrow> (nat \<Rightarrow> real) \<Rightarrow> int \<Rightarrow> nat \<Rightarrow>
   js_error option \<Rightarrow> run_result" where
  "makeRequest_loop c url env rnd retries attempt lastError =
     (if int attempt \<le> retries then
        (case try_block c (env attempt) attempt retries (rnd attempt) of
           Inr (Return responseData) \<Rightarrow> ([NetworkCall attempt], Inr responseData)
         | Inr (Continue delay) \<Rightarrow>
             emit [NetworkCall attempt, Sleep delay]
               (makeRequest_loop c url env rnd retries (Suc attempt) lastError)
         | Inl error \<Rightarrow>
             (case catch_block c url error attempt retries (rnd attempt) of
                Throw e \<Rightarrow> ([NetworkCall attempt], Inl (Some e))
              | SleepContinue delay \<Rightarrow>
                  emit [NetworkCall attempt, Sleep delay]
                    (makeRequest_loop c url env rnd retries (Suc attempt) (Some error))
              | FallThrough \<Rightarrow>
                  emit [NetworkCall attempt]
                    (makeRequest_loop c url env rnd retries (Suc attempt) (Some error))))
      else ([], Inl lastError))"
  by pat_completeness auto
termination
  by (relation "measure (\<lambda>(c, url, env, rnd, retries, attempt, lastError). nat (retries + 1 - int attempt))")
     auto

declare makeRequest_loop.simps [simp del]

text \<open>\<open>retries\<close> is \<^verbatim>\<open>options.retries\<close>; left out (\<open>None\<close>), it defaults to 3.\<close>

definition makeRequest ::
  "client \<Rightarrow> string \<Rightarrow> int option \<Rightarrow> (nat \<Rightarrow> fetch_outcome) \<Rightarrow> (nat \<Rightarrow> real) \<Rightarrow> run_result" where
  "makeRequest c endpoint retries_opt env rnd =
     (let retries = (case retries_opt of None \<Rightarrow> 3 | Some n \<Rightarrow> n);
          url = baseURL c @ endpoint
      in makeRequest_loop c url env rnd retries 0 None)"

text \<open>The mean of a non-empty list of samples, for the expected backoff delay.\<close>

definition mean :: "real list \<Rightarrow> real" where
  "mean xs = sum_list xs / real (length xs)"

text \<open>
  How a run may end: with the parsed body of an ok response; or with an error the
  executor made; or with the error that came from below in one of the attempts,
  thrown as it is, which carries a truthy type or came in the last attempt of the
  budget.
\<close>

definition terminal ::
  "client \<Rightarrow> (nat \<Rightarrow> fetch_outcome) \<Rightarrow> int \<Rightarrow> js_error option + js_value \<Rightarrow> bool" where
  "terminal c env retries res =
     (case res of
        Inr v \<Rightarrow> \<exists>k resp. int k \<le> retries \<and> env k = Resolves resp \<and> ok resp \<and> json resp = Inr v
      | Inl None \<Rightarrow> False
      | Inl (Some e) \<Rightarrow>
          made_here c e
          \<or> (\<exists>k. int k \<le> retries \<and> raw_error (env k) = Some e
                   \<and> (truthy (err_type e) \<or> int k = retries)))"

text \<open>The number of calls to \<^verbatim>\<open>fetch\<close> in a run.\<close>

fun attempts :: "event list \<Rightarrow> nat" where
  "attempts [] = 0"
| "attempts (NetworkCall i # evs) = Suc (attempts evs)"
| "attempts (Sleep d # evs) = attempts evs"

text \<open>The delay the loop sleeps after attempt \<open>i\<close> when it retries.\<close>

definition retry_delay :: "(nat \<Rightarrow> fetch_outcome) \<Rightarrow> (nat \<Rightarrow> real) \<Rightarrow> nat \<Rightarrow> js_number" where
  "retry_delay env rnd i =
     (case env i of
        Resolves resp \<Rightarrow> rate_limit_delay (retry_after resp) i (rnd i)
      | Rejects e \<Rightarrow> Num (getExponentialBackoff i (rnd i)))"

text \<open>The trace of a run whose attempts \<open>a, \<dots>, n\<close> all fail and are all retried but the last.\<close>

definition retry_trace :: "(nat \<Rightarrow> js_number) \<Rightarrow> nat \<Rightarrow> nat \<Rightarrow> event list" where
  "retry_trace delay a n =
     concat (map (\<lambda>i. [NetworkCall i, Sleep (delay i)]) [a..<n]) @ [NetworkCall n]"


section \<open>The request scheduler (\<^verbatim>\<open>QueueManager\<close>)\<close>

subsection \<open>State\<close>

text \<open>
  A queue item holds the request, the \<^verbatim>\<open>resolve\<close>/\<^verbatim>\<open>reject\<close> pair of the promise
  that \<^verbatim>\<open>enqueue\<close> returned and the time of the call. The request is known by its
  \<open>provider\<close>; what its \<^verbatim>\<open>execute\<close> does arrives as an event. \<open>ticket\<close> stands for
  the identity of the promise: the number of \<^verbatim>\<open>enqueue\<close> calls made before this one.
\<close>

record queue_item =
  request_provider :: string
  ticket :: nat
  timestamp :: int

record rate_limit =
  count :: nat
  resetTime :: int

text \<open>
  \<^verbatim>\<open>_processQueue\<close> is an async function. Between two of its \<^verbatim>\<open>await\<close>s it runs
  without interruption; at an \<^verbatim>\<open>await\<close> it is suspended and other code (a call to
  \<^verbatim>\<open>enqueue\<close>, a reader of \<^verbatim>\<open>getQueueLength\<close>) may run. \<open>pending\<close> is the suspended
  activation, if there is one: its local \<^verbatim>\<open>item\<close> and the \<^verbatim>\<open>await\<close> it waits at.
\<close>

datatype await_point =
    AwaitCheckRateLimit
  | AwaitExecute
  | AwaitWaitForRateLimit

text \<open>
  What the scheduler does that can be seen from outside, in order: a timer set by
  \<^verbatim>\<open>_checkRateLimit\<close> or \<^verbatim>\<open>_waitForRateLimit\<close> (\<open>None\<close>: the function returns without
  setting one), a call of \<^verbatim>\<open>execute\<close>, a call of \<^verbatim>\<open>resolve\<close> or \<^verbatim>\<open>reject\<close>.
\<close>

datatype observation =
    CheckRateLimit nat "int option"
  | Execute nat
  | Resolve nat js_value
  | Reject nat js_error
  | WaitForRateLimit nat "int option"

record queue_manager =
  queue :: "queue_item list"
  processing :: bool
  rateLimits :: "string \<rightharpoonup> rate_limit"
  pending :: "(queue_item \<times> await_point) option"
  enqueued :: nat
  observed :: "observation list"

definition new_queue_manager :: queue_manager where
  "new_queue_manager =
     \<lparr>queue = [], processing = False, rateLimits = Map.empty,
      pending = None, enqueued = 0, observed = []\<rparr>"

subsection \<open>Rate-limit bookkeeping\<close>

text \<open>
  \<open>now\<close> is \<^verbatim>\<open>Date.now()\<close>. \<^verbatim>\<open>_checkRateLimit\<close> and \<^verbatim>\<open>_waitForRateLimit\<close> return the
  duration of the timer they await, if they set one.
\<close>

definition checkRateLimit :: "(string \<rightharpoonup> rate_limit) \<Rightarrow> string \<Rightarrow> int \<Rightarrow> int option" where
  "checkRateLimit limits p now =
     (case limits p of
        None \<Rightarrow> None
      | Some limit \<Rightarrow> if now < resetTime limit then Some (resetTime limit - now) else None)"

definition updateRateLimit ::
  "(string \<rightharpoonup> rate_limit) \<Rightarrow> string \<Rightarrow> int \<Rightarrow> (string \<rightharpoonup> rate_limit)" where
  "updateRateLimit limits p now =
     (let limit = (case limits p of
                     None \<Rightarrow> \<lparr>count = 0, resetTime = now + 60000\<rparr>
                   | Some l \<Rightarrow> l)
      in if now \<ge> resetTime limit
         then limits(p \<mapsto> \<lparr>count = 1, resetTime = now + 60000\<rparr>)
         else limits(p \<mapsto> limit\<lparr>count := count limit + 1\<rparr>))"

definition isRateLimitError :: "js_error \<Rightarrow> bool" where
  "isRateLimitError error = (err_type error = JStr RATE_LIMIT)"

definition waitForRateLimit :: "(string \<rightharpoonup> rate_limit) \<Rightarrow> string \<Rightarrow> int \<Rightarrow> int option" where
  "waitForRateLimit limits p now =
     (case limits p of
        None \<Rightarrow> None
      | Some limit \<Rightarrow> Some (max 0 (resetTime limit - now)))"

definition getQueueLength :: "queue_manager \<Rightarrow> nat" where
  "getQueueLength s = length (queue s)"

subsection \<open>Draining\<close>

text \<open>
  \<^verbatim>\<open>_processQueue\<close>, from its call to its first \<^verbatim>\<open>await\<close>: the guard, the flag, the
  shift, and the body of \<^verbatim>\<open>_checkRateLimit\<close> up to its timer.
\<close>

definition processQueue :: "int \<Rightarrow> queue_manager \<Rightarrow> queue_manager" where
  "processQueue now s =
     (if processing s \<or> length (queue s) = 0 then s
      else (case queue s of
              [] \<Rightarrow> s
            | item # rest \<Rightarrow>
                s\<lparr>processing := True,
                  queue := rest,
                  pending := Some (item, AwaitCheckRateLimit),
                  observed := observed s @
                    [CheckRateLimit (ticket item)
                       (checkRateLimit (rateLimits s) (request_provider item) now)]\<rparr>))"

text \<open>The \<^verbatim>\<open>finally\<close> block: the activation ends and calls \<^verbatim>\<open>_processQueue\<close> anew.\<close>

definition finally_block :: "int \<Rightarrow> queue_manager \<Rightarrow> queue_manager" where
  "finally_block now s = processQueue now (s\<lparr>processing := False, pending := None\<rparr>)"

text \<open>
  The events that drive the scheduler: a call of \<^verbatim>\<open>enqueue\<close> for a provider, and
  the completion of each of the three \<^verbatim>\<open>await\<close>s; \<open>now\<close> is the time at which the code
  that follows reads the clock. \<^verbatim>\<open>execute\<close> settles with a value or with an error.
  An event that does not match the pending \<^verbatim>\<open>await\<close> cannot occur and leaves the
  state as it is.
\<close>

datatype queue_event =
    Enqueue string int
  | CheckRateLimitDone
  | ExecuteDone "js_error + js_value" int
  | WaitForRateLimitDone int

fun step :: "queue_manager \<Rightarrow> queue_event \<Rightarrow> queue_manager" where
  "step s (Enqueue p now) =
     processQueue now
       (s\<lparr>queue := queue s @ [\<lparr>request_provider = p, ticket = enqueued s, timestamp = now\<rparr>],
          enqueued := Suc (enqueued s)\<rparr>)"
| "step s CheckRateLimitDone =
     (case pending s of
        Some (item, AwaitCheckRateLimit) \<Rightarrow>
          s\<lparr>pending := Some (item, AwaitExecute),
            observed := observed s @ [Execute (ticket item)]\<rparr>
      | _ \<Rightarrow> s)"
| "step s (ExecuteDone outcome now) =
     (case pending s of
        Some (item, AwaitExecute) \<Rightarrow>
          (case outcome of
             Inr result \<Rightarrow>
               finally_block now
                 (s\<lparr>rateLimits := updateRateLimit (rateLimits s) (request_provider item) now,
                    observed := observed s @ [Resolve (ticket item) result]\<rparr>)
           | Inl error \<Rightarrow>
               if isRateLimitError error
               then s\<lparr>queue := item # queue s,
                      pending := Some (item, AwaitWaitForRateLimit),
                      observed := observed s @
                        [WaitForRateLimit (ticket item)
                           (waitForRateLimit (rateLimits s) (request_provider item) now)]\<rparr>
               else finally_block now (s\<lparr>observed := observed s @ [Reject (ticket item) error]\<rparr>))
      | _ \<Rightarrow> s)"
| "step s (WaitForRateLimitDone now) =
     (case pending s of
        Some (item, AwaitWaitForRateLimit) \<Rightarrow> finally_block now s
      | _ \<Rightarrow> s)"

fun run :: "queue_manager \<Rightarrow> queue_event list \<Rightarrow> queue_manager" where
  "run s [] = s"
| "run s (ev # evs) = run (step s ev) evs"





section \<open>Properties of the arithmetic\<close>

text \<open>
  The rounding is within half a unit in the last place, leaves an integer of
  magnitude up to \<open>2^53\<close> as it is, and is monotone on the numbers from 0 on.
\<close>

lemma binade_bounds:
  assumes "0 < x"
  shows "2 powi binade x \<le> x" and "x < 2 powi (binade x + 1)"
proof -
  show "2 powi binade x \<le> x"
  proof (cases "1 \<le> x")
    case True
    let ?n = "\<lfloor>x\<rfloor>"
    have n: "0 < ?n" using True by simp
    from bitlen_bounds [OF n] have lo: "2 ^ nat (bitlen ?n - 1) \<le> ?n" by simp
    have k: "1 \<le> bitlen ?n" using n bitlen_eq_zero_iff [of ?n] bitlen_nonneg [of ?n] by linarith
    have "2 powi binade x = (2::real) ^ nat (bitlen ?n - 1)"
      using True k by (simp add: binade_def power_int_nonneg_exp)
    also have "\<dots> = of_int (2 ^ nat (bitlen ?n - 1))" by simp
    also have "\<dots> \<le> of_int ?n" using lo by (simp only: of_int_le_iff)
    also have "\<dots> \<le> x" by simp
    finally show ?thesis .
  next
    case False
    let ?m = "\<lceil>1 / x\<rceil>"
    have y: "1 < 1 / x" using False assms by simp
    then have m: "0 < ?m - 1" by linarith
    from bitlen_bounds [OF m] have hi: "?m - 1 < 2 ^ nat (bitlen (?m - 1))" by simp
    then have "?m \<le> 2 ^ nat (bitlen (?m - 1))" by linarith
    then have "of_int ?m \<le> (of_int (2 ^ nat (bitlen (?m - 1))) :: real)" by (simp only: of_int_le_iff)
    then have "of_int ?m \<le> (2 ^ nat (bitlen (?m - 1)) :: real)"
      by (simp only: of_int_power of_int_numeral)
    then have "1 / x \<le> 2 ^ nat (bitlen (?m - 1))" 
      using le_of_int_ceiling [of "1 / x"] by linarith
    then have "1 / 2 ^ nat (bitlen (?m - 1)) \<le> x"
      using assms by (simp add: field_simps)
    moreover have "2 powi binade x = 1 / (2::real) ^ nat (bitlen (?m - 1))"
      using False bitlen_nonneg [of "?m - 1"]
      by (simp add: binade_def power_int_minus power_int_nonneg_exp field_simps)
    ultimately show ?thesis by simp
  qed
  show "x < 2 powi (binade x + 1)"
  proof (cases "1 \<le> x")
    case True
    let ?n = "\<lfloor>x\<rfloor>"
    have n: "0 < ?n" using True by simp
    from bitlen_bounds [OF n] have hi: "?n < 2 ^ nat (bitlen ?n)" by simp
    then have "?n + 1 \<le> 2 ^ nat (bitlen ?n)" by linarith
    then have "of_int (?n + 1) \<le> (of_int (2 ^ nat (bitlen ?n)) :: real)" by (simp only: of_int_le_iff)
    then have "x < 2 ^ nat (bitlen ?n)" by simp linarith
    moreover have "2 powi (binade x + 1) = (2::real) ^ nat (bitlen ?n)"
      using True bitlen_nonneg [of ?n] by (simp add: binade_def power_int_nonneg_exp)
    ultimately show ?thesis by simp
  next
    case False
    let ?m = "\<lceil>1 / x\<rceil>"
    let ?k = "bitlen (?m - 1)"
    have y: "1 < 1 / x" using False assms by simp
    then have m: "0 < ?m - 1" by linarith
    from bitlen_bounds [OF m] have lo: "2 ^ nat (?k - 1) \<le> ?m - 1" by simp
    have k: "1 \<le> ?k" using m bitlen_eq_zero_iff [of "?m - 1"] bitlen_nonneg [of "?m - 1"] by linarith
    have "(of_int (2 ^ nat (?k - 1)) :: real) \<le> of_int (?m - 1)" using lo by (simp only: of_int_le_iff)
    moreover have "of_int (?m - 1) < 1 / x" by linarith
    ultimately have "2 ^ nat (?k - 1) < 1 / x" by simp
    then have "x < 1 / 2 ^ nat (?k - 1)" using assms by (simp add: field_simps)
    moreover have "2 powi (binade x + 1) = 1 / (2::real) ^ nat (?k - 1)"
    proof -
      have "binade x + 1 = - (?k - 1)" using False by (simp add: binade_def)
      then have "(2::real) powi (binade x + 1) = 2 powi (- (?k - 1))" by (simp only:)
      also have "\<dots> = 1 / 2 powi (?k - 1)" by (rule power_int_minus_divide)
      also have "(2::real) powi (?k - 1) = 2 ^ nat (?k - 1)"
        using k by (intro power_int_nonneg_exp) simp
      finally show ?thesis .
    qed
    ultimately show ?thesis by simp
  qed
qed

lemma binade_unique:
  assumes "0 < x" "2 powi e \<le> x" "x < 2 powi (e + 1)"
  shows "binade x = e"
proof -
  have "(2::real) powi binade x < 2 powi (e + 1)"
    using binade_bounds(1) [OF assms(1)] assms(3) by linarith
  then have a: "binade x < e + 1"
    by (metis power_int_increasing not_less one_le_numeral)
  have "(2::real) powi e < 2 powi (binade x + 1)"
    using binade_bounds(2) [OF assms(1)] assms(2) by linarith
  then have b: "e < binade x + 1"
    by (metis power_int_increasing not_less one_le_numeral)
  from a b show ?thesis by linarith
qed

lemma binade_mono:
  assumes "0 < x" "x \<le> y"
  shows "binade x \<le> binade y"
proof -
  have "0 < y" using assms by linarith
  from binade_bounds(1) [OF assms(1)] binade_bounds(2) [OF this] assms(2)
  have "(2::real) powi binade x < 2 powi (binade y + 1)" by linarith
  then have "binade x < binade y + 1"
    by (metis power_int_increasing not_less one_le_numeral)
  then show ?thesis by linarith
qed

lemma round_even_of_int: "round_even (of_int n) = n"
  by (simp add: round_even_def)

lemma round_even_error: "\<bar>of_int (round_even x) - x\<bar> \<le> 1 / 2"
proof -
  have "of_int \<lfloor>x\<rfloor> \<le> x" "x < of_int \<lfloor>x\<rfloor> + 1" by linarith+
  then show ?thesis
    by (auto simp: round_even_def Let_def)
qed

lemma round_even_eqI:
  assumes "of_int n - 1 / 2 < x" "x < of_int n + 1 / 2"
  shows "round_even x = n"
proof -
  from round_even_error [of x] assms
  have "\<bar>(of_int (round_even x) :: real) - of_int n\<bar> < 1" by linarith
  then have "\<bar>round_even x - n\<bar> < 1"
    by (metis of_int_diff of_int_abs of_int_less_iff of_int_1)
  then show ?thesis by linarith
qed

lemma round_even_mono:
  assumes "x \<le> y"
  shows "round_even x \<le> round_even y"
proof (cases "\<lfloor>x\<rfloor> = \<lfloor>y\<rfloor>")
  case True
  then show ?thesis using assms by (auto simp: round_even_def Let_def)
next
  case False
  then have "\<lfloor>x\<rfloor> + 1 \<le> \<lfloor>y\<rfloor>" using floor_mono [OF assms] by linarith
  moreover have "round_even x \<le> \<lfloor>x\<rfloor> + 1" by (simp add: round_even_def Let_def)
  moreover have "\<lfloor>y\<rfloor> \<le> round_even y" by (simp add: round_even_def Let_def)
  ultimately show ?thesis by linarith
qed


lemma ulp_pos: "0 < ulp x"
  by (simp add: ulp_def)

lemma fl_zero: "fl 0 = 0"
  by (simp add: fl_def round_even_def)

lemma fl_error: "\<bar>fl x - x\<bar> \<le> ulp x / 2"
proof -
  let ?u = "ulp x"
  have u: "0 < ?u" by (rule ulp_pos)
  have "fl x - x = (of_int (round_even (x / ?u)) - x / ?u) * ?u"
    using u by (simp add: fl_def field_simps)
  then have "\<bar>fl x - x\<bar> = \<bar>of_int (round_even (x / ?u)) - x / ?u\<bar> * ?u"
    using u by (simp add: abs_mult)
  also have "\<dots> \<le> (1 / 2) * ?u"
    using round_even_error [of "x / ?u"] u by (intro mult_right_mono) simp_all
  finally show ?thesis by simp
qed

lemma fl_exact:
  assumes "x / ulp x = of_int n"
  shows "fl x = x"
proof -
  have "fl x = of_int n * ulp x"
    unfolding fl_def assms round_even_of_int ..
  also have "\<dots> = x" using assms ulp_pos [of x] by (simp add: field_simps)
  finally show ?thesis .
qed

lemma ulp_binade:
  assumes "0 < x" "2 powi e \<le> x" "x < 2 powi (e + 1)" "- 1022 \<le> e"
  shows "ulp x = 2 powi (e - 52)"
  using binade_unique [OF assms(1-3)] assms(1,4) by (simp add: ulp_def max_def)

lemma ulp_le:
  assumes "0 < x" "x < 2 powi (e + 1)" "- 1022 \<le> e"
  shows "ulp x \<le> 2 powi (e - 52)"
proof -
  have "(2::real) powi binade x < 2 powi (e + 1)"
    using binade_bounds(1) [OF assms(1)] assms(2) by linarith
  then have "binade x < e + 1"
    by (metis power_int_increasing not_less one_le_numeral)
  then have "max (binade x) (- 1022) - 52 \<le> e - 52" using assms(3) by simp
  then show ?thesis
    using assms(1) unfolding ulp_def by (simp add: power_int_increasing)
qed

lemma fl_nonneg:
  assumes "0 \<le> x"
  shows "0 \<le> fl x"
proof -
  have "0 \<le> x / ulp x" using assms ulp_pos [of x] by simp
  then have "round_even 0 \<le> round_even (x / ulp x)" by (rule round_even_mono)
  then have "0 \<le> round_even (x / ulp x)" by (simp add: round_even_def)
  then show ?thesis using ulp_pos [of x] by (simp add: fl_def)
qed

lemma fl_le_top:
  assumes "0 < x"
  shows "fl x \<le> 2 powi (max (binade x) (- 1022) + 1)"
proof -
  let ?E = "max (binade x) (- 1022)"
  have u: "ulp x = 2 powi (?E - 52)" using assms by (simp add: ulp_def)
  have "x < 2 powi (binade x + 1)" by (rule binade_bounds(2) [OF assms])
  also have "\<dots> \<le> 2 powi (?E + 1)" by (intro power_int_increasing) simp_all
  finally have x: "x < 2 powi (?E + 1)" .
  have split: "(2::real) powi (?E + 1) = 2 ^ 53 * 2 powi (?E - 52)"
  proof -
    have "?E + 1 = 53 + (?E - 52)" by linarith
    then have "(2::real) powi (?E + 1) = 2 powi (53 + (?E - 52))" by (simp only:)
    also have "\<dots> = 2 powi 53 * 2 powi (?E - 52)" by (rule power_int_add) simp
    finally show ?thesis by simp
  qed
  have "x / ulp x \<le> of_int (2 ^ 53)"
    using x ulp_pos [of x] unfolding u split by (simp add: field_simps)
  then have "round_even (x / ulp x) \<le> round_even (of_int (2 ^ 53))" by (rule round_even_mono)
  then have "round_even (x / ulp x) \<le> 2 ^ 53" by (simp only: round_even_of_int)
  then have "(of_int (round_even (x / ulp x)) :: real) \<le> of_int (2 ^ 53)" by (simp only: of_int_le_iff)
  then have "fl x \<le> of_int (2 ^ 53) * ulp x"
    unfolding fl_def using ulp_pos [of x] by (intro mult_right_mono) simp_all
  then show ?thesis unfolding u split by simp
qed

lemma fl_ge_bottom:
  assumes "0 < x" "- 1022 \<le> binade x"
  shows "2 powi binade x \<le> fl x"
proof -
  have u: "ulp x = 2 powi (binade x - 52)" using assms by (simp add: ulp_def max_def)
  have split: "(2::real) powi binade x = 2 ^ 52 * 2 powi (binade x - 52)"
  proof -
    have "binade x = 52 + (binade x - 52)" by linarith
    then have "(2::real) powi binade x = 2 powi (52 + (binade x - 52))" by (simp only:)
    also have "\<dots> = 2 powi 52 * 2 powi (binade x - 52)" by (rule power_int_add) simp
    finally show ?thesis by simp
  qed
  have "of_int (2 ^ 52) \<le> x / ulp x"
    using binade_bounds(1) [OF assms(1)] ulp_pos [of x] unfolding u split by (simp add: field_simps)
  then have "round_even (of_int (2 ^ 52)) \<le> round_even (x / ulp x)" by (rule round_even_mono)
  then have "2 ^ 52 \<le> round_even (x / ulp x)" by (simp only: round_even_of_int)
  then have "(of_int (2 ^ 52) :: real) \<le> of_int (round_even (x / ulp x))" by (simp only: of_int_le_iff)
  then have "of_int (2 ^ 52) * ulp x \<le> fl x"
    unfolding fl_def using ulp_pos [of x] by (intro mult_right_mono) simp_all
  then show ?thesis unfolding u split by simp
qed

lemma fl_mono:
  assumes "0 \<le> x" "x \<le> y"
  shows "fl x \<le> fl y"
proof (cases "x = 0")
  case True
  then show ?thesis using fl_nonneg [of y] assms by (simp add: fl_zero)
next
  case False
  then have x: "0 < x" and y: "0 < y" using assms by linarith+
  let ?Ex = "max (binade x) (- 1022)" and ?Ey = "max (binade y) (- 1022)"
  have le: "?Ex \<le> ?Ey" using binade_mono [OF x assms(2)] by simp
  show ?thesis
  proof (cases "?Ex = ?Ey")
    case True
    then have u: "ulp x = ulp y" using x y by (simp add: ulp_def)
    have "x / ulp y \<le> y / ulp y" using assms(2) ulp_pos [of y] by (simp add: divide_right_mono)
    then have "round_even (x / ulp y) \<le> round_even (y / ulp y)" by (rule round_even_mono)
    then have "(of_int (round_even (x / ulp y)) :: real) \<le> of_int (round_even (y / ulp y))"
      by (simp only: of_int_le_iff)
    then show ?thesis
      unfolding fl_def u using ulp_pos [of y] by (intro mult_right_mono) simp_all
  next
    case False
    with le have lt: "?Ex < ?Ey" by linarith
    then have by1: "- 1022 \<le> binade y" and by2: "?Ex + 1 \<le> binade y" by (simp_all add: max_def split: if_splits)
    have "fl x \<le> 2 powi (?Ex + 1)" by (rule fl_le_top [OF x])
    also have "\<dots> \<le> 2 powi binade y" using by2 by (intro power_int_increasing) simp_all
    also have "\<dots> \<le> fl y" by (rule fl_ge_bottom [OF y by1])
    finally show ?thesis .
  qed
qed

lemma fl_int:
  assumes "\<bar>n\<bar> \<le> 2 ^ 53"
  shows "fl (of_int n) = of_int n"
proof (cases "n = 0")
  case True
  then show ?thesis by (simp add: fl_zero)
next
  case False
  let ?a = "\<bar>of_int n\<bar> :: real"
  have a: "0 < ?a" using False by simp
  have a1: "1 \<le> ?a"
  proof -
    have "1 \<le> \<bar>n\<bar>" using False by linarith
    then have "(of_int 1 :: real) \<le> of_int \<bar>n\<bar>" by (simp only: of_int_le_iff)
    then show ?thesis by simp
  qed
  let ?e = "binade ?a"
  have e0: "0 \<le> ?e"
  proof -
    have "(2::real) powi 0 \<le> ?a" using a1 by simp
    also have "?a < 2 powi (?e + 1)" by (rule binade_bounds(2) [OF a])
    finally have "(0::int) < ?e + 1" by (metis power_int_increasing not_less one_le_numeral)
    then show ?thesis by linarith
  qed
  have u: "ulp (of_int n) = 2 powi (?e - 52)" using e0 by (simp add: ulp_def max_def)
  have top: "?a \<le> 2 ^ 53"
  proof -
    have "(of_int \<bar>n\<bar> :: real) \<le> of_int (2 ^ 53)" using assms by (simp only: of_int_le_iff)
    then show ?thesis by simp
  qed
  have e53: "?e \<le> 53"
  proof -
    have "(2::real) powi ?e \<le> ?a" by (rule binade_bounds(1) [OF a])
    also have "?a \<le> 2 powi 53" using top by simp
    also have "\<dots> < 2 powi 54" by simp
    finally have "?e < 54" by (metis power_int_increasing not_less one_le_numeral)
    then show ?thesis by linarith
  qed
  show ?thesis
  proof (cases "?e \<le> 52")
    case True
    have "of_int n / ulp (of_int n) = of_int n * (2::real) ^ nat (52 - ?e)"
    proof -
      have "(2::real) powi (?e - 52) = 1 / 2 powi (52 - ?e)"
        using power_int_minus_divide [of "2::real" "52 - ?e"] by simp
      then show ?thesis using True unfolding u by (simp add: power_int_nonneg_exp)
    qed
    also have "\<dots> = of_int (n * 2 ^ nat (52 - ?e))" by simp
    finally show ?thesis by (rule fl_exact)
  next
    case False
    with e53 have e: "?e = 53" by linarith
    have "(2::real) powi 53 \<le> ?a" using binade_bounds(1) [OF a] unfolding e .
    with top have eq: "?a = 2 ^ 53" by simp
    then have "(of_int \<bar>n\<bar> :: real) = of_int (2 ^ 53)" by simp
    then have "\<bar>n\<bar> = 2 ^ 53" by (simp only: of_int_eq_iff)
    then have n: "n = 2 ^ 53 \<or> n = - (2 ^ 53)" by linarith
    have "of_int n / ulp (of_int n) = of_int n / (2::real)" unfolding u e by simp
    also have "\<dots> = of_int (n div 2)" using n by auto
    finally show ?thesis by (rule fl_exact)
  qed
qed


section \<open>Properties of the executor\<close>

subsection \<open>Backoff\<close>

lemma fl_eqI:
  assumes "0 < x" "2 powi e \<le> x" "x < 2 powi (e + 1)" "- 1022 \<le> e"
    and "\<bar>x - of_int n * 2 powi (e - 52)\<bar> < 2 powi (e - 52) / 2"
  shows "fl x = of_int n * 2 powi (e - 52)"
proof -
  let ?u = "(2::real) powi (e - 52)"
  have u: "ulp x = ?u" by (rule ulp_binade [OF assms(1-4)])
  have pos: "0 < ?u" by simp
  have "\<bar>x / ?u - of_int n\<bar> * ?u = \<bar>x - of_int n * ?u\<bar>"
  proof -
    have "\<bar>x / ?u - of_int n\<bar> * ?u = \<bar>(x / ?u - of_int n) * ?u\<bar>"
      using pos by (simp add: abs_mult)
    also have "(x / ?u - of_int n) * ?u = x - of_int n * ?u"
      using pos by (simp add: field_simps)
    finally show ?thesis .
  qed
  with assms(5) have "\<bar>x / ?u - of_int n\<bar> * ?u < (1 / 2) * ?u" by simp
  then have "\<bar>x / ?u - of_int n\<bar> < 1 / 2" using pos by (simp only: mult_less_cancel_right_pos)
  then have "round_even (x / ?u) = n" by (intro round_even_eqI) linarith+
  then show ?thesis by (simp add: fl_def u)
qed

lemma cap_int: "min ((1000::real) * 2 ^ i) 30000 = of_int (min (1000 * 2 ^ i) 30000)"
  by (simp add: of_int_min)

lemma cap_bounds: "1000 \<le> min ((1000::real) * 2 ^ i) 30000" "min ((1000::real) * 2 ^ i) 30000 \<le> 30000"
proof -
  have "(1::real) \<le> 2 ^ i" by simp
  then show "1000 \<le> min ((1000::real) * 2 ^ i) 30000" by simp
  show "min ((1000::real) * 2 ^ i) 30000 \<le> 30000" by simp
qed

lemma backoff_cap_mono: "min ((1000::real) * 2 ^ i) 30000 \<le> min (1000 * 2 ^ Suc i) 30000"
  by (simp add: min_def)

lemma fl_small_int:
  assumes "0 \<le> n" "n \<le> 31000"
  shows "fl (of_int n) = of_int n"
  using assms by (intro fl_int) simp

lemma fl_cap: "fl (min (1000 * 2 ^ i) 30000) = min (1000 * 2 ^ i) 30000"
  unfolding cap_int by (rule fl_small_int) (simp_all add: min_def)

lemma fl_cap_plus: "fl (min (1000 * 2 ^ i) 30000 + 1000) = min (1000 * 2 ^ i) 30000 + 1000"
proof -
  have "min ((1000::real) * 2 ^ i) 30000 + 1000 = of_int (min (1000 * 2 ^ i) 30000 + 1000)"
    by (simp add: of_int_min)
  moreover have "fl (of_int (min (1000 * 2 ^ i) 30000 + 1000)) = of_int (min (1000 * 2 ^ i) 30000 + 1000)"
    by (rule fl_small_int) (simp_all add: min_def)
  ultimately show ?thesis by simp
qed

lemma jitter_range:
  assumes "0 \<le> r" "r < 1"
  shows "0 \<le> fl (r * 1000)" and "fl (r * 1000) \<le> 1000"
proof -
  have x: "0 \<le> r * 1000" "r * 1000 \<le> 1000" using assms by simp_all
  show "0 \<le> fl (r * 1000)" by (rule fl_nonneg [OF x(1)])
  have "fl (r * 1000) \<le> fl (of_int 1000)" using fl_mono [OF x] by simp
  also have "\<dots> = of_int 1000" by (rule fl_small_int) simp_all
  finally show "fl (r * 1000) \<le> 1000" by simp
qed

lemma backoff_eq:
  "getExponentialBackoff i r = fl (min (1000 * 2 ^ i) 30000 + fl (r * 1000))"
  by (simp add: getExponentialBackoff_def)

lemma backoff_range:
  assumes "0 \<le> r" "r < 1"
  shows "min (1000 * 2 ^ i) 30000 \<le> getExponentialBackoff i r"
    and "getExponentialBackoff i r \<le> min (1000 * 2 ^ i) 30000 + 1000"
proof -
  let ?D = "min ((1000::real) * 2 ^ i) 30000" and ?J = "fl (r * 1000)"
  note J = jitter_range [OF assms]
  have D0: "0 \<le> ?D" using cap_bounds(1) [of i] by linarith
  have "fl ?D \<le> fl (?D + ?J)" using D0 J(1) by (intro fl_mono) simp_all
  then show "?D \<le> getExponentialBackoff i r" by (simp only: fl_cap backoff_eq)
  have "fl (?D + ?J) \<le> fl (?D + 1000)" using D0 J by (intro fl_mono) simp_all
  then show "getExponentialBackoff i r \<le> ?D + 1000" by (simp only: fl_cap_plus backoff_eq)
qed

lemma backoff_error:
  assumes "0 \<le> r" "r < 1"
  shows "\<bar>getExponentialBackoff i r - (min (1000 * 2 ^ i) 30000 + r * 1000)\<bar> \<le> 1 / 2 ^ 38"
proof -
  let ?D = "min ((1000::real) * 2 ^ i) 30000" and ?x = "r * 1000" and ?J = "fl (r * 1000)"
  note J = jitter_range [OF assms]
  have e1: "\<bar>?J - ?x\<bar> \<le> 1 / 2 ^ 44"
  proof (cases "?x = 0")
    case True
    then show ?thesis by (simp add: fl_zero)
  next
    case False
    then have pos: "0 < ?x" using assms(1) by simp
    have "?x < 2 powi (9 + 1)" using assms(2) by simp
    from ulp_le [OF pos this] have "ulp ?x \<le> 2 powi (9 - 52)" by simp
    then have "ulp ?x \<le> 1 / 2 ^ 43" by (simp add: power_int_minus_divide)
    with fl_error [of ?x] show ?thesis by simp
  qed
  have e2: "\<bar>fl (?D + ?J) - (?D + ?J)\<bar> \<le> 1 / 2 ^ 39"
  proof -
    have pos: "0 < ?D + ?J" using cap_bounds(1) [of i] J(1) by linarith
    have "?D + ?J < 2 powi (14 + 1)" using cap_bounds(2) [of i] J(2) by simp
    from ulp_le [OF pos this] have "ulp (?D + ?J) \<le> 2 powi (14 - 52)" by simp
    then have "ulp (?D + ?J) \<le> 1 / 2 ^ 38" by (simp add: power_int_minus_divide)
    with fl_error [of "?D + ?J"] show ?thesis by simp
  qed
  have "\<bar>fl (?D + ?J) - (?D + ?x)\<bar> \<le> \<bar>fl (?D + ?J) - (?D + ?J)\<bar> + \<bar>?J - ?x\<bar>" by linarith
  also have "\<dots> \<le> 1 / 2 ^ 39 + 1 / 2 ^ 44" using e1 e2 by linarith
  also have "\<dots> \<le> (1::real) / 2 ^ 38" by simp
  finally show ?thesis by (simp only: backoff_eq)
qed

lemma backoff_step:
  assumes "0 \<le> r" "r < 1"
  shows "getExponentialBackoff i r \<le> getExponentialBackoff (Suc i) r"
proof -
  note J = jitter_range [OF assms]
  have "0 \<le> min ((1000::real) * 2 ^ i) 30000 + fl (r * 1000)"
    using cap_bounds(1) [of i] J(1) by linarith
  moreover have "min ((1000::real) * 2 ^ i) 30000 + fl (r * 1000)
      \<le> min (1000 * 2 ^ Suc i) 30000 + fl (r * 1000)"
    using backoff_cap_mono [of i] by linarith
  ultimately show ?thesis unfolding backoff_eq by (rule fl_mono)
qed

lemma backoff_half: "getExponentialBackoff i (1 / 2) = min (1000 * 2 ^ i) 30000 + 500"
proof -
  have a: "fl ((1 / 2) * 1000) = 500"
    using fl_small_int [of 500] by simp
  have "min ((1000::real) * 2 ^ i) 30000 + 500 = of_int (min (1000 * 2 ^ i) 30000 + 500)"
    by (simp add: of_int_min)
  moreover have "fl (of_int (min (1000 * 2 ^ i) 30000 + 500)) = of_int (min (1000 * 2 ^ i) 30000 + 500)"
    by (rule fl_small_int) (simp_all add: min_def)
  ultimately show ?thesis unfolding backoff_eq a by simp
qed

text \<open>
  C5, as the code has it. For every attempt index \<open>i\<close> and every value \<open>r\<close> of
  \<^verbatim>\<open>Math.random()\<close> in \<open>[0, 1)\<close>, \<^verbatim>\<open>_getExponentialBackoff(i)\<close> is the sum of
  \<open>min (1000 * 2^i) 30000\<close> and the jitter \<open>1000 * r\<close> as doubles compute it: the
  double nearest to the sum of the cap and the double nearest to the jitter. It
  is within \<open>2^-38\<close> ms of the exact sum, it lies between the cap and the cap plus
  1000, both ends included, and so it never exceeds 31000 ms. Over any non-empty
  list of samples of the random number, the mean delay at index \<open>i\<close> is at most
  the mean delay at index \<open>i + 1\<close>.
\<close>

theorem getExponentialBackoff_range:
  "(0 \<le> r \<and> r < 1 \<longrightarrow>
      getExponentialBackoff i r = fl (min (1000 * 2 ^ i) 30000 + fl (1000 * r))
      \<and> \<bar>getExponentialBackoff i r - (min (1000 * 2 ^ i) 30000 + 1000 * r)\<bar> \<le> 1 / 2 ^ 38
      \<and> min (1000 * 2 ^ i) 30000 \<le> getExponentialBackoff i r
      \<and> getExponentialBackoff i r \<le> min (1000 * 2 ^ i) 30000 + 1000
      \<and> getExponentialBackoff i r \<le> 31000)
   \<and> (rs \<noteq> [] \<and> (\<forall>r \<in> set rs. 0 \<le> r \<and> r < 1) \<longrightarrow>
        mean (map (getExponentialBackoff i) rs) \<le> mean (map (getExponentialBackoff (Suc i)) rs))"
proof (intro conjI impI)
  assume r: "0 \<le> r \<and> r < 1"
  then have r0: "0 \<le> r" and r1: "r < 1" by simp_all
  show "getExponentialBackoff i r = fl (min (1000 * 2 ^ i) 30000 + fl (1000 * r))"
    by (simp add: backoff_eq mult.commute)
  show "\<bar>getExponentialBackoff i r - (min (1000 * 2 ^ i) 30000 + 1000 * r)\<bar> \<le> 1 / 2 ^ 38"
    using backoff_error [OF r0 r1, of i] by (simp add: mult.commute)
  show "min (1000 * 2 ^ i) 30000 \<le> getExponentialBackoff i r"
    by (rule backoff_range(1) [OF r0 r1])
  show "getExponentialBackoff i r \<le> min (1000 * 2 ^ i) 30000 + 1000"
    by (rule backoff_range(2) [OF r0 r1])
  then show "getExponentialBackoff i r \<le> 31000"
    using cap_bounds(2) [of i] by linarith
next
  assume h: "rs \<noteq> [] \<and> (\<forall>r \<in> set rs. 0 \<le> r \<and> r < 1)"
  then have "sum_list (map (getExponentialBackoff i) rs) \<le> sum_list (map (getExponentialBackoff (Suc i)) rs)"
    by (intro sum_list_mono) (simp add: backoff_step)
  moreover have "0 < real (length rs)" using h by simp
  ultimately show "mean (map (getExponentialBackoff i) rs) \<le> mean (map (getExponentialBackoff (Suc i)) rs)"
    by (simp add: mean_def divide_right_mono)
qed

theorem getExponentialBackoff_range_witness:
  "(0::real) \<le> 1 / 2 \<and> (1 / 2 :: real) < 1 \<and> [1 / 2, 1 / 2 :: real] \<noteq> []
   \<and> getExponentialBackoff 3 (1 / 2) = 8500
   \<and> getExponentialBackoff 3 (1 / 2) \<le> 31000
   \<and> mean (map (getExponentialBackoff 3) [1 / 2, 1 / 2]) \<le> mean (map (getExponentialBackoff (Suc 3)) [1 / 2, 1 / 2])"
  using getExponentialBackoff_range [of "1 / 2" 3 "[1 / 2, 1 / 2]"]
  by (simp add: backoff_half)

text \<open>
  The claim as the specification states it fails: when \<^verbatim>\<open>Math.random()\<close> returns the
  largest double below 1, the jitter is below 1000 and yet the delay at index 5
  is 31000, the cap plus 1000; no jitter in \<open>[0, 1000)\<close> added to the cap gives it.
\<close>

theorem getExponentialBackoff_rounding_counterexample:
  "(0::real) \<le> 1 - 1 / 2 ^ 53 \<and> (1 - 1 / 2 ^ 53 :: real) < 1
   \<and> fl (1000 * (1 - 1 / 2 ^ 53)) < 1000
   \<and> getExponentialBackoff 5 (1 - 1 / 2 ^ 53) = 30000 + 1000"
proof -
  have "fl ((1 - 1 / 2 ^ 53) * 1000) = of_int (1000 * 2 ^ 43 - 1) * 2 powi (9 - 52)"
    by (rule fl_eqI) (simp_all add: power_int_minus_divide)
  also have "\<dots> = 1000 - 1 / 2 ^ 43"
    by (simp add: power_int_minus_divide)
  finally have j: "fl ((1 - 1 / 2 ^ 53) * 1000) = 1000 - 1 / 2 ^ 43" .
  have "fl (30000 + (1000 - 1 / 2 ^ 43)) = of_int (31000 * 2 ^ 38) * 2 powi (14 - 52)"
    by (rule fl_eqI) (simp_all add: power_int_minus_divide)
  also have "\<dots> = 31000"
    by (simp add: power_int_minus_divide)
  finally have s: "fl (30000 + (1000 - 1 / 2 ^ 43)) = 31000" .
  have c: "min ((1000::real) * 2 ^ 5) 30000 = 30000" by simp
  have "getExponentialBackoff 5 (1 - 1 / 2 ^ 53) = 31000"
    unfolding backoff_eq j c by (rule s)
  moreover have "fl (1000 * (1 - 1 / 2 ^ 53)) < 1000"
    using j by (simp add: mult.commute)
  ultimately show ?thesis by simp
qed


subsection \<open>Parameter validation\<close>

lemma map_of_literal:
  "map_of (map (\<lambda>(k, v). (k, Holds (Data v))) props) k = map_option (\<lambda>v. Holds (Data v)) (map_of props k)"
  by (induction props) auto

lemma find_slot_Object_prototype:
  "find_slot Object_prototype k =
     (if k \<in> set prototype_methods then Some (Holds Other)
      else if k = ''__proto__'' then Some ProtoGetter else None)"
proof -
  have "map_of (map (\<lambda>k. (k, Holds Other)) ks @ [(''__proto__'', ProtoGetter)]) k =
      (if k \<in> set ks then Some (Holds Other)
       else if k = ''__proto__'' then Some ProtoGetter else None)" for ks
    by (induction ks) auto
  then show ?thesis by (simp add: Object_prototype_def)
qed

lemma read_property_literal:
  "read_property (object_literal props) k =
     (case map_of props k of
        Some v \<Rightarrow> Data v
      | None \<Rightarrow> if k \<in> set prototype_methods \<or> k = ''__proto__'' then Other else Data JUndefined)"
  by (simp add: read_property_def object_literal_def map_of_literal find_slot_Object_prototype
      split: option.splits)

text \<open>
  C10. For every parameter object and every list of required names,
  \<^verbatim>\<open>_validateParams\<close> throws exactly when \<^verbatim>\<open>params[key]\<close> is falsy for some required
  name; the error is a \<^verbatim>\<open>VALIDATION_ERROR\<close> and its \<^verbatim>\<open>details.missing\<close> lists exactly
  the required names with a falsy value, in the order of the required list. The
  empty string, 0, \<^verbatim>\<open>null\<close>, \<^verbatim>\<open>false\<close>, NaN and \<^verbatim>\<open>undefined\<close> are falsy. In an object
  literal a name reads as its own property when there is one; an absent name
  reads as \<^verbatim>\<open>undefined\<close>, and so counts as missing, unless \<^verbatim>\<open>Object.prototype\<close> has
  it, when it reads as the inherited member, which is truthy.
\<close>

theorem validateParams_iff_falsy:
  "(case validateParams c params required of
      Inr u \<Rightarrow> \<forall>key \<in> set required. truthy_any (read_property params key)
    | Inl e \<Rightarrow>
        (\<exists>key \<in> set required. \<not> truthy_any (read_property params key))
        \<and> err_type e = JStr VALIDATION_ERROR
        \<and> get_prop (err_details e) ''missing''
            = Inr (JArr (map JStr [key \<leftarrow> required. \<not> truthy_any (read_property params key)])))
   \<and> \<not> truthy (JStr []) \<and> \<not> truthy (JNum 0) \<and> \<not> truthy JNull \<and> \<not> truthy (JBool False)
   \<and> \<not> truthy JUndefined \<and> \<not> truthy JNaN
   \<and> read_property (object_literal props) key' =
       (case map_of props key' of
          Some v \<Rightarrow> Data v
        | None \<Rightarrow> if key' \<in> set prototype_methods \<or> key' = ''__proto__'' then Other
                   else Data JUndefined)
   \<and> truthy_any Other"
proof -
  let ?missing = "[key \<leftarrow> required. \<not> truthy_any (read_property params key)]"
  have run: "validateParams c params required =
      (if ?missing = [] then Inr ()
       else Inl (createError c VALIDATION_ERROR
                   (''Missing required parameters: '' @ join '', '' ?missing)
                   (JObj [(''missing'', JArr (map JStr ?missing))])))"
    by (simp add: validateParams_def Let_def)
  have none: "?missing = [] \<longleftrightarrow> (\<forall>key \<in> set required. truthy_any (read_property params key))"
    by (simp add: filter_empty_conv)
  note lit = read_property_literal [of props key']
  show ?thesis
  proof (cases "?missing = []")
    case True
    with run none lit show ?thesis by simp
  next
    case False
    with none have "\<exists>key \<in> set required. \<not> truthy_any (read_property params key)" by blast
    with run False lit show ?thesis by (simp add: createError_def)
  qed
qed

theorem validateParams_iff_falsy_witness:
  "validateParams \<lparr>apiKey = ''k'', baseURL = ''u'', provider = ''test'', timeout = 5000\<rparr>
     (object_literal [(''prompt'', JStr []), (''model'', JStr ''m''), (''count'', JNum 0), (''seed'', JNull)])
     [''prompt'', ''model'', ''count'', ''toString'', ''voice'', ''seed'']
   = Inl (createError \<lparr>apiKey = ''k'', baseURL = ''u'', provider = ''test'', timeout = 5000\<rparr>
            VALIDATION_ERROR ''Missing required parameters: prompt, count, voice, seed''
            (JObj [(''missing'', JArr [JStr ''prompt'', JStr ''count'', JStr ''voice'', JStr ''seed''])]))
   \<and> (\<exists>key \<in> set [''prompt'', ''model'', ''count'', ''toString'', ''voice'', ''seed''].
         \<not> truthy_any (read_property
              (object_literal [(''prompt'', JStr []), (''model'', JStr ''m''), (''count'', JNum 0), (''seed'', JNull)]) key))
   \<and> validateParams \<lparr>apiKey = ''k'', baseURL = ''u'', provider = ''test'', timeout = 5000\<rparr>
       (object_literal []) [''toString'', ''constructor''] = Inr ()"
  using validateParams_iff_falsy
    [where c = "\<lparr>apiKey = ''k'', baseURL = ''u'', provider = ''test'', timeout = 5000\<rparr>"
       and params = "object_literal [(''prompt'', JStr []), (''model'', JStr ''m''), (''count'', JNum 0), (''seed'', JNull)]"
       and required = "[''prompt'', ''model'', ''count'', ''toString'', ''voice'', ''seed'']"]
  by (simp add: validateParams_def read_property_literal prototype_methods_def)


subsection \<open>The retry loop, one iteration at a time\<close>

lemma makeRequest_default: "makeRequest c endpoint None env rnd = makeRequest c endpoint (Some 3) env rnd"
  by (simp add: makeRequest_def)

lemma loop_exit:
  "\<not> int attempt \<le> retries \<Longrightarrow>
   makeRequest_loop c url env rnd retries attempt lastError = ([], Inl lastError)"
  by (subst makeRequest_loop.simps) simp

lemma loop_throw:
  assumes "int attempt \<le> retries"
    and "try_block c (env attempt) attempt retries (rnd attempt) = Inl error"
    and "catch_block c url error attempt retries (rnd attempt) = Throw e"
  shows "makeRequest_loop c url env rnd retries attempt lastError = ([NetworkCall attempt], Inl (Some e))"
  using assms by (subst makeRequest_loop.simps) simp

lemma loop_return:
  assumes "int attempt \<le> retries"
    and "try_block c (env attempt) attempt retries (rnd attempt) = Inr (Return v)"
  shows "makeRequest_loop c url env rnd retries attempt lastError = ([NetworkCall attempt], Inr v)"
  using assms by (subst makeRequest_loop.simps) simp

lemma loop_continue:
  assumes "int attempt \<le> retries"
    and "try_block c (env attempt) attempt retries (rnd attempt) = Inr (Continue d)"
  shows "makeRequest_loop c url env rnd retries attempt lastError =
           emit [NetworkCall attempt, Sleep d]
             (makeRequest_loop c url env rnd retries (Suc attempt) lastError)"
  using assms by (subst makeRequest_loop.simps) simp

lemma loop_sleep:
  assumes "int attempt \<le> retries"
    and "try_block c (env attempt) attempt retries (rnd attempt) = Inl error"
    and "catch_block c url error attempt retries (rnd attempt) = SleepContinue d"
  shows "makeRequest_loop c url env rnd retries attempt lastError =
           emit [NetworkCall attempt, Sleep d]
             (makeRequest_loop c url env rnd retries (Suc attempt) (Some error))"
  using assms by (subst makeRequest_loop.simps) simp

lemma loop_fall:
  assumes "int attempt \<le> retries"
    and "try_block c (env attempt) attempt retries (rnd attempt) = Inl error"
    and "catch_block c url error attempt retries (rnd attempt) = FallThrough"
  shows "makeRequest_loop c url env rnd retries attempt lastError =
           emit [NetworkCall attempt]
             (makeRequest_loop c url env rnd retries (Suc attempt) (Some error))"
  using assms by (subst makeRequest_loop.simps) simp

lemma snd_emit: "snd (emit evs res) = snd res"
  by (simp add: emit_def)

lemma fst_emit: "fst (emit evs res) = evs @ fst res"
  by (simp add: emit_def)

lemma kinds_distinct:
  "AUTH_ERROR \<noteq> RATE_LIMIT" "AUTH_ERROR \<noteq> NETWORK_ERROR" "AUTH_ERROR \<noteq> GENERIC_ERROR"
  "VALIDATION_ERROR \<noteq> RATE_LIMIT" "VALIDATION_ERROR \<noteq> NETWORK_ERROR"
  "VALIDATION_ERROR \<noteq> GENERIC_ERROR" "AUTH_ERROR \<noteq> VALIDATION_ERROR"
  "RATE_LIMIT \<noteq> NETWORK_ERROR" "RATE_LIMIT \<noteq> GENERIC_ERROR" "NETWORK_ERROR \<noteq> GENERIC_ERROR"
  "RATE_LIMIT \<noteq> []" "AUTH_ERROR \<noteq> []" "NETWORK_ERROR \<noteq> []" "VALIDATION_ERROR \<noteq> []"
  "GENERIC_ERROR \<noteq> []"
  by (simp_all add: RATE_LIMIT_def AUTH_ERROR_def NETWORK_ERROR_def VALIDATION_ERROR_def
        GENERIC_ERROR_def)

text \<open>An error made by \<^verbatim>\<open>_createError\<close> is thrown on by the \<^verbatim>\<open>catch\<close> block as it is.\<close>

lemma catch_created:
  "ty \<noteq> [] \<Longrightarrow>
   catch_block c url (createError c' ty msg det) attempt retries r = Throw (createError c' ty msg det)"
  by (simp add: catch_block_def createError_def)

lemma catch_auth_validation:
  "err_type e = JStr AUTH_ERROR \<or> err_type e = JStr VALIDATION_ERROR \<Longrightarrow>
   catch_block c url e attempt retries r = Throw e"
  by (auto simp: catch_block_def)

lemma try_auth:
  "status resp = 401 \<or> status resp = 403 \<Longrightarrow>
   try_block c (Resolves resp) attempt retries r =
     Inl (createError c AUTH_ERROR ''Authentication failed''
            (JObj [(''status'', JNum (status resp))]))"
  by (auto simp: try_block_def)

lemma try_generic:
  assumes "status resp \<noteq> 429" "status resp \<noteq> 401" "status resp \<noteq> 403" "\<not> ok resp"
    and "errorMessage (case json resp of Inl e \<Rightarrow> JObj [] | Inr v \<Rightarrow> v) (statusText resp) = Inr m"
    and "to_string m = Inr text"
  shows "try_block c (Resolves resp) attempt retries r =
           Inl (createError c GENERIC_ERROR (''API error: '' @ text)
                  (JObj [(''status'', JNum (status resp)),
                         (''data'', case json resp of Inl e \<Rightarrow> JObj [] | Inr v \<Rightarrow> v)]))"
  using assms by (simp add: try_block_def)

text \<open>
  A call to \<^verbatim>\<open>fetch\<close> that is in the trace of the loop was made by an iteration of
  the loop; when the \<^verbatim>\<open>try\<close> block of that iteration throws an error made by
  \<^verbatim>\<open>_createError\<close>, the run ends there with that error.
\<close>

lemma loop_created:
  assumes "try_block c (env k) k retries (rnd k) = Inl (createError c ty msg det)" and "ty \<noteq> []"
  shows "NetworkCall k \<in> set (fst (makeRequest_loop c url env rnd retries attempt lastError)) \<Longrightarrow>
     snd (makeRequest_loop c url env rnd retries attempt lastError) = Inl (Some (createError c ty msg det))
     \<and> last (fst (makeRequest_loop c url env rnd retries attempt lastError)) = NetworkCall k"
proof (induction "nat (retries + 1 - int attempt)" arbitrary: attempt lastError rule: less_induct)
  case less
  note mem = less.prems(1)
  note t = assms(1)
  have IH: "NetworkCall k \<in> set (fst (makeRequest_loop c url env rnd retries (Suc attempt) le)) \<Longrightarrow>
     snd (makeRequest_loop c url env rnd retries (Suc attempt) le) = Inl (Some (createError c ty msg det))
     \<and> last (fst (makeRequest_loop c url env rnd retries (Suc attempt) le)) = NetworkCall k"
    if "int attempt \<le> retries" for le
    using that by (intro less.hyps) simp_all
  show ?case
  proof (cases "int attempt \<le> retries")
    case False
    with mem show ?thesis by (simp add: loop_exit)
  next
    case le: True
    note loop_return = loop_return [where env = env and rnd = rnd and attempt = attempt and c = c and retries = retries]
    note loop_throw = loop_throw [where env = env and rnd = rnd and attempt = attempt and c = c and retries = retries]
    note loop_fall = loop_fall [where env = env and rnd = rnd and attempt = attempt and c = c and retries = retries]
    note loop_continue = loop_continue [where env = env and rnd = rnd and attempt = attempt and c = c and retries = retries]
    note loop_sleep = loop_sleep [where env = env and rnd = rnd and attempt = attempt and c = c and retries = retries]
    show ?thesis
    proof (cases "attempt = k")
      case True
      have ct: "catch_block c url (createError c ty msg det) attempt retries (rnd attempt)
          = Throw (createError c ty msg det)"
        by (rule catch_created [OF assms(2)])
      from t True have tb: "try_block c (env attempt) attempt retries (rnd attempt) = Inl (createError c ty msg det)"
        by simp
      show ?thesis unfolding loop_throw [OF le tb ct] using True by simp
    next
      case ne: False
      show ?thesis
      proof (cases "try_block c (env attempt) attempt retries (rnd attempt)")
        case (Inr tr)
        show ?thesis
        proof (cases tr)
          case (Return v)
          with Inr have tb: "try_block c (env attempt) attempt retries (rnd attempt) = Inr (Return v)" by simp
          from mem ne show ?thesis by (simp add: loop_return [OF le tb])
        next
          case (Continue d)
          with Inr have tb: "try_block c (env attempt) attempt retries (rnd attempt) = Inr (Continue d)" by simp
          from mem have m: "NetworkCall k \<in> set (fst (makeRequest_loop c url env rnd retries (Suc attempt) lastError))"
            using ne by (simp add: loop_continue [OF le tb] fst_emit)
          then have nonempty: "fst (makeRequest_loop c url env rnd retries (Suc attempt) lastError) \<noteq> []"
            by auto
          from IH [OF le m] nonempty
          show ?thesis
            by (simp add: loop_continue [OF le tb] fst_emit snd_emit)
        qed
      next
        case (Inl e)
        note tb = Inl
        show ?thesis
        proof (cases "catch_block c url e attempt retries (rnd attempt)")
          case (Throw e')
          from mem ne show ?thesis by (simp add: loop_throw [OF le tb Throw])
        next
          case (SleepContinue d)
          from mem have m: "NetworkCall k \<in> set (fst (makeRequest_loop c url env rnd retries (Suc attempt) (Some e)))"
            using ne by (simp add: loop_sleep [OF le tb SleepContinue] fst_emit)
          then have nonempty: "fst (makeRequest_loop c url env rnd retries (Suc attempt) (Some e)) \<noteq> []"
            by auto
          from IH [OF le m] nonempty
          show ?thesis
            by (simp add: loop_sleep [OF le tb SleepContinue] fst_emit snd_emit)
        next
          case FallThrough
          from mem have m: "NetworkCall k \<in> set (fst (makeRequest_loop c url env rnd retries (Suc attempt) (Some e)))"
            using ne by (simp add: loop_fall [OF le tb FallThrough] fst_emit)
          then have nonempty: "fst (makeRequest_loop c url env rnd retries (Suc attempt) (Some e)) \<noteq> []"
            by auto
          from IH [OF le m] nonempty
          show ?thesis
            by (simp add: loop_fall [OF le tb FallThrough] fst_emit snd_emit)
        qed
      qed
    qed
  qed
qed


subsection \<open>Failures that are not retried\<close>

text \<open>
  C4. When the first attempt answers 401 or 403, or is rejected with an error
  whose type is \<^verbatim>\<open>AUTH_ERROR\<close> or \<^verbatim>\<open>VALIDATION_ERROR\<close>, \<^verbatim>\<open>_makeRequest\<close> throws that
  failure after exactly one network call and without any sleep, whatever the
  retry budget \<open>retries \<ge> 0\<close>.
\<close>

theorem auth_validation_single_attempt:
  assumes "0 \<le> retries"
  shows "(env 0 = Resolves resp \<and> (status resp = 401 \<or> status resp = 403) \<longrightarrow>
            makeRequest c endpoint (Some retries) env rnd =
              ([NetworkCall 0],
               Inl (Some (createError c AUTH_ERROR ''Authentication failed''
                            (JObj [(''status'', JNum (status resp))])))))
       \<and> (env 0 = Rejects e \<and> (err_type e = JStr AUTH_ERROR \<or> err_type e = JStr VALIDATION_ERROR) \<longrightarrow>
            makeRequest c endpoint (Some retries) env rnd = ([NetworkCall 0], Inl (Some e)))"
proof (intro conjI impI)
  assume h: "env 0 = Resolves resp \<and> (status resp = 401 \<or> status resp = 403)"
  have le: "int 0 \<le> retries" using assms by simp
  have t: "try_block c (env 0) 0 retries (rnd 0) =
      Inl (createError c AUTH_ERROR ''Authentication failed''
             (JObj [(''status'', JNum (status resp))]))"
    using h by (simp add: try_auth)
  show "makeRequest c endpoint (Some retries) env rnd =
              ([NetworkCall 0],
               Inl (Some (createError c AUTH_ERROR ''Authentication failed''
                            (JObj [(''status'', JNum (status resp))]))))"
    unfolding makeRequest_def Let_def option.case
    using loop_throw [where env = env and rnd = rnd and attempt = 0, OF le t]
    by (simp add: catch_auth_validation createError_def)
next
  assume h: "env 0 = Rejects e \<and> (err_type e = JStr AUTH_ERROR \<or> err_type e = JStr VALIDATION_ERROR)"
  have le: "int 0 \<le> retries" using assms by simp
  have t: "try_block c (env 0) 0 retries (rnd 0) = Inl e"
    using h by (simp add: try_block_def)
  show "makeRequest c endpoint (Some retries) env rnd = ([NetworkCall 0], Inl (Some e))"
    unfolding makeRequest_def Let_def option.case
    using h loop_throw [where env = env and rnd = rnd and attempt = 0, OF le t]
    by (simp add: catch_auth_validation)
qed

theorem auth_validation_single_attempt_witness:
  "(0::int) \<le> 3
   \<and> makeRequest \<lparr>apiKey = ''key'', baseURL = ''https://api.test.com'', provider = ''test'', timeout = 5000\<rparr>
        ''/test'' (Some 3)
        (\<lambda>i. Resolves \<lparr>status = 401, ok = False, statusText = ''Unauthorized'',
                        retry_after = None, json = Inr (JObj [])\<rparr>)
        (\<lambda>i. 0)
     = ([NetworkCall 0],
        Inl (Some \<lparr>err_name = ''Error'', err_message = ''Authentication failed'',
                   err_type = JStr ''AUTH_ERROR'', err_provider = JStr ''test'',
                   err_details = JObj [(''status'', JNum 401)]\<rparr>))"
  using auth_validation_single_attempt
    [where retries = 3
       and env = "\<lambda>i. Resolves \<lparr>status = 401, ok = False, statusText = ''Unauthorized'',
                        retry_after = None, json = Inr (JObj [])\<rparr>"
       and resp = "\<lparr>status = 401, ok = False, statusText = ''Unauthorized'',
                        retry_after = None, json = Inr (JObj [])\<rparr>"
       and c = "\<lparr>apiKey = ''key'', baseURL = ''https://api.test.com'', provider = ''test'', timeout = 5000\<rparr>"
       and endpoint = "''/test''" and rnd = "\<lambda>i. 0"]
  by (simp add: createError_def AUTH_ERROR_def)

text \<open>
  C1, as the code has it. Take any attempt \<open>k\<close> that a run of \<^verbatim>\<open>_makeRequest\<close> makes,
  whatever the budget and however many retries remain. When the attempt gets a
  response that is not ok, with a status other than 429, 401 and 403, and the
  message of the error can be built (\<open>m\<close> is what
  \<^verbatim>\<open>errorData.error?.message || errorData.message || response.statusText\<close> evaluates
  to and \<open>text\<close> is its conversion to a string), the run throws the \<^verbatim>\<open>GENERIC_ERROR\<close>
  with that message and the status and body as details, and the call to \<^verbatim>\<open>fetch\<close>
  of attempt \<open>k\<close> is its last event: the \<^verbatim>\<open>catch\<close> block rethrows every error that
  carries a type, so nothing is slept and the call is not retried.
\<close>

theorem generic_error_not_retried:
  assumes "NetworkCall k \<in> set (fst (makeRequest c endpoint retries_opt env rnd))"
    and "env k = Resolves resp"
    and "\<not> ok resp" and "status resp \<noteq> 429" and "status resp \<noteq> 401" and "status resp \<noteq> 403"
    and "errorMessage (case json resp of Inl e \<Rightarrow> JObj [] | Inr v \<Rightarrow> v) (statusText resp) = Inr m"
    and "to_string m = Inr text"
  shows "snd (makeRequest c endpoint retries_opt env rnd) =
           Inl (Some (createError c GENERIC_ERROR (''API error: '' @ text)
                        (JObj [(''status'', JNum (status resp)),
                               (''data'', case json resp of Inl e \<Rightarrow> JObj [] | Inr v \<Rightarrow> v)])))
       \<and> last (fst (makeRequest c endpoint retries_opt env rnd)) = NetworkCall k"
proof -
  let ?retries = "case retries_opt of None \<Rightarrow> 3 | Some n \<Rightarrow> n"
  have run: "makeRequest c endpoint retries_opt env rnd =
      makeRequest_loop c (baseURL c @ endpoint) env rnd ?retries 0 None"
    by (simp add: makeRequest_def)
  have t: "try_block c (env k) k ?retries (rnd k) =
      Inl (createError c GENERIC_ERROR (''API error: '' @ text)
             (JObj [(''status'', JNum (status resp)),
                    (''data'', case json resp of Inl e \<Rightarrow> JObj [] | Inr v \<Rightarrow> v)]))"
    unfolding assms(2) by (rule try_generic [OF assms(4,5,6,3,7,8)])
  from loop_created [where env = env and rnd = rnd and k = k, OF t kinds_distinct(15)] assms(1)
  show ?thesis
    unfolding run by blast
qed

theorem generic_error_not_retried_witness:
  "NetworkCall 1 \<in> set (fst
     (makeRequest \<lparr>apiKey = ''key'', baseURL = ''https://api.test.com'', provider = ''test'', timeout = 5000\<rparr>
        ''/test'' (Some 3)
        (\<lambda>i. if i = 0
              then Resolves \<lparr>status = 429, ok = False, statusText = ''Too Many Requests'',
                             retry_after = None, json = Inr (JObj [])\<rparr>
              else Resolves \<lparr>status = 500, ok = False, statusText = ''Internal Server Error'',
                             retry_after = None, json = Inr (JObj [(''message'', JStr ''boom'')])\<rparr>)
        (\<lambda>i. 1 / 2)))
   \<and> errorMessage (JObj [(''message'', JStr ''boom'')]) ''Internal Server Error'' = Inr (JStr ''boom'')
   \<and> to_string (JStr ''boom'') = Inr ''boom''
   \<and> makeRequest \<lparr>apiKey = ''key'', baseURL = ''https://api.test.com'', provider = ''test'', timeout = 5000\<rparr>
        ''/test'' (Some 3)
        (\<lambda>i. if i = 0
              then Resolves \<lparr>status = 429, ok = False, statusText = ''Too Many Requests'',
                             retry_after = None, json = Inr (JObj [])\<rparr>
              else Resolves \<lparr>status = 500, ok = False, statusText = ''Internal Server Error'',
                             retry_after = None, json = Inr (JObj [(''message'', JStr ''boom'')])\<rparr>)
        (\<lambda>i. 1 / 2)
     = ([NetworkCall 0, Sleep (Num 1500), NetworkCall 1],
        Inl (Some \<lparr>err_name = ''Error'', err_message = ''API error: boom'',
                   err_type = JStr ''GENERIC_ERROR'', err_provider = JStr ''test'',
                   err_details = JObj [(''status'', JNum 500),
                                       (''data'', JObj [(''message'', JStr ''boom'')])]\<rparr>))"
proof -
  let ?c = "\<lparr>apiKey = ''key'', baseURL = ''https://api.test.com'', provider = ''test'', timeout = 5000\<rparr>"
  let ?r500 = "\<lparr>status = 500, ok = False, statusText = ''Internal Server Error'',
                 retry_after = None, json = Inr (JObj [(''message'', JStr ''boom'')])\<rparr>"
  let ?env = "\<lambda>i::nat. if i = 0
              then Resolves \<lparr>status = 429, ok = False, statusText = ''Too Many Requests'',
                             retry_after = None, json = Inr (JObj [])\<rparr>
              else Resolves ?r500"
  have eval: "fst (makeRequest ?c ''/test'' (Some 3) ?env (\<lambda>i. 1 / 2))
      = [NetworkCall 0, Sleep (Num 1500), NetworkCall 1]"
    by (simp add: makeRequest_def makeRequest_loop.simps [of _ _ _ _ _ 0]
        makeRequest_loop.simps [of _ _ _ _ _ "Suc 0"]
        try_block_def catch_block_def emit_def rate_limit_delay_def backoff_half
        errorMessage_def createError_def AUTH_ERROR_def VALIDATION_ERROR_def GENERIC_ERROR_def)
  have mem: "NetworkCall 1 \<in> set (fst (makeRequest ?c ''/test'' (Some 3) ?env (\<lambda>i. 1 / 2)))"
    unfolding eval by simp
  have msg: "errorMessage (case json ?r500 of Inl e \<Rightarrow> JObj [] | Inr v \<Rightarrow> v) (statusText ?r500)
      = Inr (JStr ''boom'')"
    by (simp add: errorMessage_def)
  have str: "to_string (JStr ''boom'') = Inr ''boom''" by simp
  from generic_error_not_retried [where k = 1 and env = ?env and resp = ?r500, OF mem _ _ _ _ _ msg str]
  have "snd (makeRequest ?c ''/test'' (Some 3) ?env (\<lambda>i. 1 / 2)) =
           Inl (Some (createError ?c GENERIC_ERROR (''API error: '' @ ''boom'')
                        (JObj [(''status'', JNum (status ?r500)),
                               (''data'', case json ?r500 of Inl e \<Rightarrow> JObj [] | Inr v \<Rightarrow> v)])))"
    by simp
  with eval mem msg str show ?thesis
    by (simp add: prod_eq_iff createError_def GENERIC_ERROR_def)
qed

text \<open>
  The claim as the specification states it fails: with three retries left, a 500
  response ends the call after one network call and no sleep.
\<close>

theorem generic_error_retry_counterexample:
  "makeRequest \<lparr>apiKey = ''key'', baseURL = ''https://api.test.com'', provider = ''test'', timeout = 5000\<rparr>
        ''/test'' (Some 3)
        (\<lambda>i. Resolves \<lparr>status = 500, ok = False, statusText = ''Internal Server Error'',
                        retry_after = None, json = Inr (JObj [])\<rparr>)
        (\<lambda>i. 0)
     = ([NetworkCall 0],
        Inl (Some \<lparr>err_name = ''Error'', err_message = ''API error: Internal Server Error'',
                   err_type = JStr ''GENERIC_ERROR'', err_provider = JStr ''test'',
                   err_details = JObj [(''status'', JNum 500), (''data'', JObj [])]\<rparr>))"
  by (simp add: makeRequest_def makeRequest_loop.simps [of _ _ _ _ _ 0] try_block_def
        catch_block_def errorMessage_def createError_def AUTH_ERROR_def VALIDATION_ERROR_def
        GENERIC_ERROR_def)


subsection \<open>How a run ends\<close>

lemma made_here_createError:
  "ty \<in> {RATE_LIMIT, AUTH_ERROR, NETWORK_ERROR, GENERIC_ERROR} \<Longrightarrow> made_here c (createError c ty msg det)"
  by (auto simp: made_here_def createError_def)

lemma try_block_error:
  assumes "try_block c out attempt retries r = Inl e"
  shows "made_here c e \<or> raw_error out = Some e"
proof (cases out)
  case (Rejects e')
  then show ?thesis using assms by (simp add: try_block_def)
next
  case (Resolves resp)
  then show ?thesis
    using assms
    by (auto simp: try_block_def Let_def made_here_createError split: if_splits sum.splits)
qed

lemma try_block_return:
  assumes "try_block c out attempt retries r = Inr (Return v)"
  shows "\<exists>resp. out = Resolves resp \<and> ok resp \<and> json resp = Inr v"
  using assms
  by (cases out) (auto simp: try_block_def Let_def split: if_splits sum.splits)

lemma try_block_continue:
  assumes "try_block c out attempt retries r = Inr (Continue d)"
  shows "int attempt < retries"
  using assms
  by (cases out) (auto simp: try_block_def Let_def split: if_splits sum.splits)

lemma catch_block_throw:
  assumes "catch_block c url e attempt retries r = Throw e'"
  shows "(e' = e \<and> truthy (err_type e)) \<or> made_here c e'"
  using assms
  by (auto simp: catch_block_def kinds_distinct made_here_createError split: if_splits)

lemma catch_block_sleep:
  assumes "catch_block c url e attempt retries r = SleepContinue d"
  shows "int attempt < retries"
  using assms by (auto simp: catch_block_def split: if_splits)

lemma catch_block_fall:
  assumes "catch_block c url e attempt retries r = FallThrough"
  shows "\<not> int attempt < retries"
  using assms by (auto simp: catch_block_def split: if_splits)

lemma loop_terminal:
  "int attempt \<le> retries \<Longrightarrow>
   terminal c env retries (snd (makeRequest_loop c url env rnd retries attempt lastError))"
proof (induction "nat (retries - int attempt)" arbitrary: attempt lastError)
  case 0
  then have last: "int attempt = retries" by simp
  have le: "int attempt \<le> retries" using last by simp
  have exit: "\<not> int (Suc attempt) \<le> retries" using last by simp
  note loop_return = loop_return [where env = env and rnd = rnd and attempt = attempt and c = c and retries = retries]
  note loop_throw = loop_throw [where env = env and rnd = rnd and attempt = attempt and c = c and retries = retries]
  note loop_fall = loop_fall [where env = env and rnd = rnd and attempt = attempt and c = c and retries = retries]
  show ?case
  proof (cases "try_block c (env attempt) attempt retries (rnd attempt)")
    case (Inr tr)
    show ?thesis
    proof (cases tr)
      case (Return v)
      with Inr have t: "try_block c (env attempt) attempt retries (rnd attempt) = Inr (Return v)" by simp
      from try_block_return [OF t] le show ?thesis
        by (auto simp: loop_return [OF le t] terminal_def)
    next
      case (Continue d)
      with Inr try_block_continue last show ?thesis by fastforce
    qed
  next
    case (Inl e)
    note t = Inl
    show ?thesis
    proof (cases "catch_block c url e attempt retries (rnd attempt)")
      case (Throw e')
      from catch_block_throw [OF Throw] try_block_error [OF t] le show ?thesis
        by (auto simp: loop_throw [OF le t Throw] terminal_def)
    next
      case (SleepContinue d)
      with catch_block_sleep last show ?thesis by fastforce
    next
      case FallThrough
      from try_block_error [OF t] last le show ?thesis
        by (auto simp: loop_fall [OF le t FallThrough] snd_emit loop_exit [OF exit] terminal_def)
    qed
  qed
next
  case (Suc n)
  then have le: "int attempt \<le> retries" and lt: "int attempt < retries"
    and n: "n = nat (retries - int (Suc attempt))" and le': "int (Suc attempt) \<le> retries"
    by simp_all
  note IH = Suc.hyps(1) [OF n le']
  note loop_return = loop_return [where env = env and rnd = rnd and attempt = attempt and c = c and retries = retries]
  note loop_throw = loop_throw [where env = env and rnd = rnd and attempt = attempt and c = c and retries = retries]
  note loop_continue = loop_continue [where env = env and rnd = rnd and attempt = attempt and c = c and retries = retries]
  note loop_sleep = loop_sleep [where env = env and rnd = rnd and attempt = attempt and c = c and retries = retries]
  show ?case
  proof (cases "try_block c (env attempt) attempt retries (rnd attempt)")
    case (Inr tr)
    show ?thesis
    proof (cases tr)
      case (Return v)
      with Inr have t: "try_block c (env attempt) attempt retries (rnd attempt) = Inr (Return v)" by simp
      from try_block_return [OF t] le show ?thesis
        by (auto simp: loop_return [OF le t] terminal_def)
    next
      case (Continue d)
      with Inr have t: "try_block c (env attempt) attempt retries (rnd attempt) = Inr (Continue d)" by simp
      show ?thesis
        by (simp add: loop_continue [OF le t] snd_emit IH)
    qed
  next
    case (Inl e)
    note t = Inl
    show ?thesis
    proof (cases "catch_block c url e attempt retries (rnd attempt)")
      case (Throw e')
      from catch_block_throw [OF Throw] try_block_error [OF t] le show ?thesis
        by (auto simp: loop_throw [OF le t Throw] terminal_def)
    next
      case (SleepContinue d)
      show ?thesis
        by (simp add: loop_sleep [OF le t SleepContinue] snd_emit IH)
    next
      case FallThrough
      with catch_block_fall lt show ?thesis by fastforce
    qed
  qed
qed

text \<open>
  C2, as the code has it. For a budget \<open>retries \<ge> 0\<close>, \<^verbatim>\<open>_makeRequest\<close> returns the parsed
  body of an ok response of one of its attempts, or throws exactly one error. The
  error is one the executor made, of type \<^verbatim>\<open>RATE_LIMIT\<close>, \<^verbatim>\<open>AUTH_ERROR\<close>,
  \<^verbatim>\<open>NETWORK_ERROR\<close> or \<^verbatim>\<open>GENERIC_ERROR\<close>, or it is the raw error of one of the attempts,
  thrown as it is: the rejection of \<^verbatim>\<open>fetch\<close>, the rejection of \<^verbatim>\<open>response.json()\<close> on
  an ok response, or, on a response that is not ok and not a 429, 401 or 403, the
  TypeError of reading the message from a \<^verbatim>\<open>null\<close> body or of converting the message
  to a string. A raw error is thrown when it carries a truthy type, or when it
  was raised in the last attempt of the budget.
\<close>

theorem makeRequest_terminal:
  assumes "0 \<le> retries"
  shows "case snd (makeRequest c endpoint (Some retries) env rnd) of
           Inr v \<Rightarrow> \<exists>k resp. int k \<le> retries \<and> env k = Resolves resp \<and> ok resp \<and> json resp = Inr v
         | Inl None \<Rightarrow> False
         | Inl (Some e) \<Rightarrow>
             made_here c e
             \<or> (\<exists>k. int k \<le> retries \<and> raw_error (env k) = Some e
                      \<and> (truthy (err_type e) \<or> int k = retries))"
proof -
  have "int 0 \<le> retries" using assms by simp
  from loop_terminal [OF this] show ?thesis
    by (simp add: makeRequest_def terminal_def)
qed

theorem makeRequest_terminal_witness:
  "(0::int) \<le> 1
   \<and> makeRequest \<lparr>apiKey = ''key'', baseURL = ''https://api.test.com'', provider = ''test'', timeout = 5000\<rparr>
        ''/test'' (Some 1)
        (\<lambda>i. Resolves \<lparr>status = 200, ok = True, statusText = ''OK'', retry_after = None,
                json = Inl \<lparr>err_name = ''SyntaxError'', err_message = ''Unexpected end of JSON input'',
                            err_type = JUndefined, err_provider = JUndefined, err_details = JUndefined\<rparr>\<rparr>)
        (\<lambda>i. 1 / 2)
     = ([NetworkCall 0, Sleep (Num 1500), NetworkCall 1],
        Inl (Some \<lparr>err_name = ''SyntaxError'', err_message = ''Unexpected end of JSON input'',
                   err_type = JUndefined, err_provider = JUndefined, err_details = JUndefined\<rparr>))
   \<and> raw_error
        (Resolves \<lparr>status = 200, ok = True, statusText = ''OK'', retry_after = None,
                json = Inl \<lparr>err_name = ''SyntaxError'', err_message = ''Unexpected end of JSON input'',
                            err_type = JUndefined, err_provider = JUndefined, err_details = JUndefined\<rparr>\<rparr>)
      = Some \<lparr>err_name = ''SyntaxError'', err_message = ''Unexpected end of JSON input'',
                   err_type = JUndefined, err_provider = JUndefined, err_details = JUndefined\<rparr>"
  using makeRequest_terminal
    [where retries = 1
       and env = "\<lambda>i. Resolves \<lparr>status = 200, ok = True, statusText = ''OK'', retry_after = None,
                json = Inl \<lparr>err_name = ''SyntaxError'', err_message = ''Unexpected end of JSON input'',
                            err_type = JUndefined, err_provider = JUndefined, err_details = JUndefined\<rparr>\<rparr>"
       and c = "\<lparr>apiKey = ''key'', baseURL = ''https://api.test.com'', provider = ''test'', timeout = 5000\<rparr>"
       and endpoint = "''/test''" and rnd = "\<lambda>i. 1 / 2"]
  by (simp add: makeRequest_def makeRequest_loop.simps [of _ _ _ _ _ 0]
        makeRequest_loop.simps [of _ _ _ _ _ "Suc 0"] makeRequest_loop.simps [of _ _ _ _ _ "Suc (Suc 0)"]
        try_block_def catch_block_def emit_def backoff_half
        AUTH_ERROR_def VALIDATION_ERROR_def)

text \<open>
  The claim as the specification states it fails: a body that does not parse, on a
  200 response with no retry left, reaches the caller as the raw SyntaxError,
  which has no type.
\<close>

theorem raw_error_leaks_counterexample:
  "makeRequest \<lparr>apiKey = ''key'', baseURL = ''https://api.test.com'', provider = ''test'', timeout = 5000\<rparr>
        ''/test'' (Some 0)
        (\<lambda>i. Resolves \<lparr>status = 200, ok = True, statusText = ''OK'', retry_after = None,
                json = Inl \<lparr>err_name = ''SyntaxError'', err_message = ''Unexpected end of JSON input'',
                            err_type = JUndefined, err_provider = JUndefined, err_details = JUndefined\<rparr>\<rparr>)
        (\<lambda>i. 0)
     = ([NetworkCall 0],
        Inl (Some \<lparr>err_name = ''SyntaxError'', err_message = ''Unexpected end of JSON input'',
                   err_type = JUndefined, err_provider = JUndefined, err_details = JUndefined\<rparr>))"
  by (simp add: makeRequest_def makeRequest_loop.simps [of _ _ _ _ _ 0]
        makeRequest_loop.simps [of _ _ _ _ _ "Suc 0"]
        try_block_def catch_block_def emit_def
        AUTH_ERROR_def VALIDATION_ERROR_def)


subsection \<open>Retries until the budget is spent\<close>

lemma try_rate_limited_retry:
  assumes "rate_limited out" "int attempt < retries"
  shows "\<exists>resp. out = Resolves resp \<and>
     try_block c out attempt retries r = Inr (Continue (rate_limit_delay (retry_after resp) attempt r))"
  using assms by (cases out) (simp_all add: try_block_def)

lemma try_rate_limited_last:
  assumes "rate_limited out" "\<not> int attempt < retries"
  shows "\<exists>e. try_block c out attempt retries r = Inl e \<and> made_here c e \<and> err_type e = JStr RATE_LIMIT"
  using assms by (cases out) (simp_all add: try_block_def made_here_def createError_def)

lemma network_failure_retry:
  assumes "network_failure out" "int attempt < retries"
  shows "\<exists>e. out = Rejects e \<and> try_block c out attempt retries r = Inl e
     \<and> catch_block c url e attempt retries r = SleepContinue (Num (getExponentialBackoff attempt r))"
  using assms by (cases out) (auto simp: try_block_def catch_block_def)

lemma network_failure_last:
  assumes "network_failure out" "\<not> int attempt < retries"
  shows "\<exists>e e'. try_block c out attempt retries r = Inl e
     \<and> catch_block c url e attempt retries r = Throw e'
     \<and> made_here c e' \<and> err_type e' = JStr NETWORK_ERROR"
  using assms by (cases out) (auto simp: try_block_def catch_block_def made_here_def createError_def)

lemma unrecognised_not_typed:
  "\<not> truthy (err_type e) \<Longrightarrow> err_type e \<noteq> JStr AUTH_ERROR \<and> err_type e \<noteq> JStr VALIDATION_ERROR"
  using kinds_distinct(12,14) by (cases "err_type e") auto

lemma unrecognised_failure_retry:
  assumes "unrecognised_failure out" "int attempt < retries"
  shows "\<exists>e. out = Rejects e \<and> try_block c out attempt retries r = Inl e
     \<and> catch_block c url e attempt retries r = SleepContinue (Num (getExponentialBackoff attempt r))"
  using assms unrecognised_not_typed
  by (cases out) (auto simp: try_block_def catch_block_def)

lemma unrecognised_failure_last:
  assumes "unrecognised_failure out" "\<not> int attempt < retries"
  shows "\<exists>e. out = Rejects e \<and> try_block c out attempt retries r = Inl e
     \<and> catch_block c url e attempt retries r = FallThrough"
  using assms unrecognised_not_typed
  by (cases out) (auto simp: try_block_def catch_block_def)

lemma unrecognised_not_network: "unrecognised_failure out \<Longrightarrow> \<not> network_failure out"
  by (cases out) auto

lemma retry_trace_last: "retry_trace delay n n = [NetworkCall n]"
  by (simp add: retry_trace_def)

lemma retry_trace_step:
  "a < n \<Longrightarrow> retry_trace delay a n = NetworkCall a # Sleep (delay a) # retry_trace delay (Suc a) n"
  by (simp add: retry_trace_def upt_conv_Cons)

lemma attempts_retry_trace: "a \<le> n \<Longrightarrow> attempts (retry_trace delay a n) = Suc (n - a)"
proof (induction "n - a" arbitrary: a)
  case 0
  then show ?case by (simp add: retry_trace_last)
next
  case (Suc k)
  then have "a < n" and "k = n - Suc a" and "Suc a \<le> n" by simp_all
  with Suc.hyps(1) [of "Suc a"] show ?case
    by (simp add: retry_trace_step Suc_diff_Suc)
qed

text \<open>The error a run throws when its last attempt fails in one of the three ways.\<close>

lemma loop_exhausted:
  assumes "0 \<le> retries"
    and "\<forall>i \<le> nat retries. rate_limited (env i) \<or> network_failure (env i) \<or> unrecognised_failure (env i)"
  shows "a \<le> nat retries \<Longrightarrow>
     \<exists>e. makeRequest_loop c url env rnd retries a lastError =
            (retry_trace (retry_delay env rnd) a (nat retries), Inl (Some e))
        \<and> (case env (nat retries) of
              Resolves resp \<Rightarrow> made_here c e \<and> err_type e = JStr RATE_LIMIT
            | Rejects e' \<Rightarrow>
                if network_failure (Rejects e') then made_here c e \<and> err_type e = JStr NETWORK_ERROR
                else e = e')"
proof (induction "nat retries - a" arbitrary: a lastError)
  case 0
  then have a: "a = nat retries" by simp
  then have le: "int a \<le> retries" and last: "\<not> int a < retries" using assms(1) by simp_all
  have exit: "\<not> int (Suc a) \<le> retries" using a assms(1) by simp
  note loop_throw = loop_throw [where env = env and rnd = rnd and attempt = a and c = c and retries = retries]
  note loop_fall = loop_fall [where env = env and rnd = rnd and attempt = a and c = c and retries = retries]
  from assms(2) a
  consider "rate_limited (env a)" | "network_failure (env a)" | "unrecognised_failure (env a)"
    by auto
  then show ?case
  proof cases
    case 1
    from try_rate_limited_last [OF 1 last, of c "rnd a"]
    obtain e where t: "try_block c (env a) a retries (rnd a) = Inl e"
      and e: "made_here c e" "err_type e = JStr RATE_LIMIT" by blast
    have ct: "catch_block c url e a retries (rnd a) = Throw e"
      using e by (auto simp: catch_block_def made_here_def kinds_distinct)
    from 1 obtain resp where "env a = Resolves resp" by (cases "env a") simp_all
    then show ?thesis
      using loop_throw [OF le t ct] e a by (simp add: retry_trace_last)
  next
    case 2
    from network_failure_last [OF 2 last, of c "rnd a" url]
    obtain e e' where t: "try_block c (env a) a retries (rnd a) = Inl e"
      and ct: "catch_block c url e a retries (rnd a) = Throw e'"
      and e': "made_here c e'" "err_type e' = JStr NETWORK_ERROR"
      by blast
    from 2 obtain x where x: "env a = Rejects x" by (cases "env a") simp_all
    with 2 have "network_failure (Rejects x)" by simp
    then show ?thesis
      using loop_throw [OF le t ct] e' a x by (simp add: retry_trace_last)
  next
    case 3
    from unrecognised_failure_last [OF 3 last, of c "rnd a" url]
    obtain e where x: "env a = Rejects e" and t: "try_block c (env a) a retries (rnd a) = Inl e"
      and ct: "catch_block c url e a retries (rnd a) = FallThrough"
      by blast
    from unrecognised_not_network [OF 3] x have nn: "\<not> network_failure (Rejects e)" by simp
    have run: "makeRequest_loop c url env rnd retries a lastError = ([NetworkCall a], Inl (Some e))"
      unfolding loop_fall [OF le t ct] loop_exit [OF exit] by (simp add: emit_def)
    have l: "env (nat retries) = Rejects e" using x a by simp
    show ?thesis
      unfolding run l using nn a by (auto simp: retry_trace_last)
  qed
next
  case (Suc k)
  then have lt: "a < nat retries" and k: "k = nat retries - Suc a" and le': "Suc a \<le> nat retries"
    by simp_all
  then have le: "int a \<le> retries" and more: "int a < retries" by simp_all
  note IH = Suc.hyps(1) [OF k le']
  note loop_continue = loop_continue [where env = env and rnd = rnd and attempt = a and c = c and retries = retries]
  note loop_sleep = loop_sleep [where env = env and rnd = rnd and attempt = a and c = c and retries = retries]
  from assms(2) lt
  consider "rate_limited (env a)" | "network_failure (env a) \<or> unrecognised_failure (env a)"
    by (metis less_imp_le_nat)
  then show ?case
  proof cases
    case 1
    from try_rate_limited_retry [OF 1 more, of c "rnd a"]
    obtain resp where r: "env a = Resolves resp"
      and t: "try_block c (env a) a retries (rnd a) = Inr (Continue (rate_limit_delay (retry_after resp) a (rnd a)))"
      by blast
    have d: "rate_limit_delay (retry_after resp) a (rnd a) = retry_delay env rnd a"
      using r by (simp add: retry_delay_def)
    from IH [of lastError] obtain e' where
      run: "makeRequest_loop c url env rnd retries (Suc a) lastError =
              (retry_trace (retry_delay env rnd) (Suc a) (nat retries), Inl (Some e'))"
      and fin: "case env (nat retries) of
              Resolves resp \<Rightarrow> made_here c e' \<and> err_type e' = JStr RATE_LIMIT
            | Rejects x \<Rightarrow>
                if network_failure (Rejects x) then made_here c e' \<and> err_type e' = JStr NETWORK_ERROR
                else e' = x"
      by blast
    have "makeRequest_loop c url env rnd retries a lastError =
            (retry_trace (retry_delay env rnd) a (nat retries), Inl (Some e'))"
      by (simp add: loop_continue [OF le t] d emit_def retry_trace_step [OF lt] run)
    with fin show ?thesis by blast
  next
    case 2
    with network_failure_retry [of "env a" a retries c "rnd a" url]
      unrecognised_failure_retry [of "env a" a retries c "rnd a" url] more
    obtain e where r: "env a = Rejects e" and t: "try_block c (env a) a retries (rnd a) = Inl e"
      and ct: "catch_block c url e a retries (rnd a) = SleepContinue (Num (getExponentialBackoff a (rnd a)))"
      by blast
    have d: "Num (getExponentialBackoff a (rnd a)) = retry_delay env rnd a"
      using r by (simp add: retry_delay_def)
    from IH [of "Some e"] obtain e' where
      run: "makeRequest_loop c url env rnd retries (Suc a) (Some e) =
              (retry_trace (retry_delay env rnd) (Suc a) (nat retries), Inl (Some e'))"
      and fin: "case env (nat retries) of
              Resolves resp \<Rightarrow> made_here c e' \<and> err_type e' = JStr RATE_LIMIT
            | Rejects x \<Rightarrow>
                if network_failure (Rejects x) then made_here c e' \<and> err_type e' = JStr NETWORK_ERROR
                else e' = x"
      by blast
    have "makeRequest_loop c url env rnd retries a lastError =
            (retry_trace (retry_delay env rnd) a (nat retries), Inl (Some e'))"
      by (simp add: loop_sleep [OF le t ct] d emit_def retry_trace_step [OF lt] run)
    with fin show ?thesis by blast
  qed
qed

lemma to_number_int:
  assumes "\<bar>n\<bar> \<le> 2 ^ 53"
  shows "to_number (of_int n) = Num (of_int n)"
proof -
  have f: "fl (of_int n) = of_int n" by (rule fl_int [OF assms])
  have "\<bar>real_of_int n\<bar> \<le> 2 ^ 53" using assms by (simp only: flip: of_int_abs) simp
  moreover have "(2::real) ^ 53 < 2 ^ 1024" by (rule power_strict_increasing) simp_all
  ultimately have "\<not> 2 ^ 1024 \<le> real_of_int n" "\<not> real_of_int n \<le> - (2 ^ 1024)" by linarith+
  then show ?thesis by (simp only: to_number_def Let_def f if_False)
qed

lemma seconds_hint_delay:
  assumes "seconds_hint h"
  shows "\<exists>s. parse_integer h = Some s \<and> times_1000 (parseInt h) = Num (of_int s * 1000)"
proof -
  from assms obtain s where s: "parse_integer h = Some s" and b: "\<bar>s\<bar> * 1000 \<le> 2 ^ 53"
    by (auto simp: seconds_hint_def split: option.splits)
  have b1: "\<bar>s\<bar> \<le> 2 ^ 53" using b by linarith
  have b2: "\<bar>s * 1000\<bar> \<le> 2 ^ 53" using b by (simp add: abs_mult)
  have "parseInt h = Num (of_int s)" by (simp add: parseInt_def s to_number_int [OF b1])
  moreover have "to_number (of_int s * 1000) = Num (of_int s * 1000)"
    using to_number_int [OF b2] by simp
  ultimately show ?thesis using s by simp
qed

lemma retry_delay_shape:
  assumes "(rate_limited (env i) \<and> (case retry_after_hint (env i) of None \<Rightarrow> True | Some h \<Rightarrow> seconds_hint h))
      \<or> network_failure (env i) \<or> unrecognised_failure (env i)"
    and "0 \<le> rnd i \<and> rnd i < 1"
  shows "case retry_after_hint (env i) of
           Some h \<Rightarrow> \<exists>s. parse_integer h = Some s \<and> retry_delay env rnd i = Num (of_int s * 1000)
         | None \<Rightarrow> retry_delay env rnd i = Num (getExponentialBackoff i (rnd i))
                    \<and> min (1000 * 2 ^ i) 30000 \<le> getExponentialBackoff i (rnd i)
                    \<and> getExponentialBackoff i (rnd i) \<le> min (1000 * 2 ^ i) 30000 + 1000
                    \<and> getExponentialBackoff i (rnd i) \<le> 31000"
proof -
  from assms(2) have r0: "0 \<le> rnd i" and r1: "rnd i < 1" by simp_all
  note b = backoff_range [OF r0 r1, of i]
  have top: "getExponentialBackoff i (rnd i) \<le> 31000"
    using b(2) cap_bounds(2) [of i] by linarith
  show ?thesis
  proof (cases "env i")
    case (Rejects e)
    then show ?thesis using b top by (simp add: retry_delay_def)
  next
    case (Resolves resp)
    show ?thesis
    proof (cases "retry_after_hint (env i)")
      case None
      then have "retry_delay env rnd i = Num (getExponentialBackoff i (rnd i))"
        using Resolves assms(1)
        by (auto simp: retry_delay_def rate_limit_delay_def split: option.splits if_splits)
      with None b top show ?thesis by simp
    next
      case (Some h)
      then have h: "retry_after resp = Some h" "h \<noteq> []" "status resp = 429"
        using Resolves by (auto split: option.splits if_splits)
      from assms(1) Some Resolves have "seconds_hint h" by auto
      from seconds_hint_delay [OF this] h Some Resolves show ?thesis
        by (auto simp: retry_delay_def rate_limit_delay_def)
    qed
  qed
qed


text \<open>
  C3, as the code has it. Let the budget be \<open>retries \<ge> 0\<close> and let every attempt up to
  the last fail in one of three ways: with a 429 response whose retry-after header
  is absent, empty or a number of seconds (\<^verbatim>\<open>parseInt\<close> reads an integer \<open>s\<close> from it
  and \<open>s * 1000\<close> is exact); with a network failure the executor recognises (a
  timeout, or a TypeError whose message mentions \<^verbatim>\<open>fetch\<close>); or with any other
  rejection of \<^verbatim>\<open>fetch\<close> that carries no type. Then \<^verbatim>\<open>_makeRequest\<close> calls \<^verbatim>\<open>fetch\<close>
  exactly \<open>retries + 1\<close> times, calling \<^verbatim>\<open>_sleep\<close> once between two calls, and
  throws: a \<^verbatim>\<open>RATE_LIMIT\<close> error when the last attempt was a 429, a \<^verbatim>\<open>NETWORK_ERROR\<close>
  when it was a recognised network failure, and otherwise the rejection of the
  last attempt as it is. The delay passed to \<^verbatim>\<open>_sleep\<close> after attempt \<open>i\<close> is the
  backoff of index \<open>i\<close>, which lies between \<open>min (1000 * 2^i) 30000\<close> and that plus
  1000, so at most 31000 ms; except after a 429 response whose header gives \<open>s\<close>
  seconds, where it is exactly \<open>s * 1000\<close>.
\<close>

theorem exhausted_retries:
  assumes "0 \<le> retries"
    and "\<forall>i \<le> nat retries.
           (rate_limited (env i)
              \<and> (case retry_after_hint (env i) of None \<Rightarrow> True | Some h \<Rightarrow> seconds_hint h))
           \<or> network_failure (env i) \<or> unrecognised_failure (env i)"
    and "\<forall>i. 0 \<le> rnd i \<and> rnd i < 1"
  shows "\<exists>e.
      makeRequest c endpoint (Some retries) env rnd =
        (retry_trace (retry_delay env rnd) 0 (nat retries), Inl (Some e))
    \<and> attempts (retry_trace (retry_delay env rnd) 0 (nat retries)) = nat retries + 1
    \<and> (case env (nat retries) of
          Resolves resp \<Rightarrow> made_here c e \<and> err_type e = JStr RATE_LIMIT
        | Rejects e' \<Rightarrow>
            if network_failure (Rejects e') then made_here c e \<and> err_type e = JStr NETWORK_ERROR
            else e = e')
    \<and> (\<forall>i < nat retries.
          case retry_after_hint (env i) of
            Some h \<Rightarrow> \<exists>s. parse_integer h = Some s \<and> retry_delay env rnd i = Num (of_int s * 1000)
          | None \<Rightarrow> retry_delay env rnd i = Num (getExponentialBackoff i (rnd i))
                     \<and> min (1000 * 2 ^ i) 30000 \<le> getExponentialBackoff i (rnd i)
                     \<and> getExponentialBackoff i (rnd i) \<le> min (1000 * 2 ^ i) 30000 + 1000
                     \<and> getExponentialBackoff i (rnd i) \<le> 31000)"
proof -
  have fails: "\<forall>i \<le> nat retries. rate_limited (env i) \<or> network_failure (env i) \<or> unrecognised_failure (env i)"
    using assms(2) by blast
  from loop_exhausted [OF assms(1) fails, of 0 c "baseURL c @ endpoint" rnd None]
  obtain e where run: "makeRequest c endpoint (Some retries) env rnd =
        (retry_trace (retry_delay env rnd) 0 (nat retries), Inl (Some e))"
    and e: "case env (nat retries) of
          Resolves resp \<Rightarrow> made_here c e \<and> err_type e = JStr RATE_LIMIT
        | Rejects e' \<Rightarrow>
            if network_failure (Rejects e') then made_here c e \<and> err_type e = JStr NETWORK_ERROR
            else e = e'"
    unfolding makeRequest_def Let_def option.case by auto
  have n: "attempts (retry_trace (retry_delay env rnd) 0 (nat retries)) = nat retries + 1"
    by (simp add: attempts_retry_trace)
  have d: "\<forall>i < nat retries.
          case retry_after_hint (env i) of
            Some h \<Rightarrow> \<exists>s. parse_integer h = Some s \<and> retry_delay env rnd i = Num (of_int s * 1000)
          | None \<Rightarrow> retry_delay env rnd i = Num (getExponentialBackoff i (rnd i))
                     \<and> min (1000 * 2 ^ i) 30000 \<le> getExponentialBackoff i (rnd i)
                     \<and> getExponentialBackoff i (rnd i) \<le> min (1000 * 2 ^ i) 30000 + 1000
                     \<and> getExponentialBackoff i (rnd i) \<le> 31000"
  proof (intro allI impI)
    fix i assume "i < nat retries"
    then have "(rate_limited (env i)
              \<and> (case retry_after_hint (env i) of None \<Rightarrow> True | Some h \<Rightarrow> seconds_hint h))
           \<or> network_failure (env i) \<or> unrecognised_failure (env i)"
      using assms(2) by simp
    moreover have "0 \<le> rnd i \<and> rnd i < 1" using assms(3) by simp
    ultimately show "case retry_after_hint (env i) of
            Some h \<Rightarrow> \<exists>s. parse_integer h = Some s \<and> retry_delay env rnd i = Num (of_int s * 1000)
          | None \<Rightarrow> retry_delay env rnd i = Num (getExponentialBackoff i (rnd i))
                     \<and> min (1000 * 2 ^ i) 30000 \<le> getExponentialBackoff i (rnd i)
                     \<and> getExponentialBackoff i (rnd i) \<le> min (1000 * 2 ^ i) 30000 + 1000
                     \<and> getExponentialBackoff i (rnd i) \<le> 31000"
      by (rule retry_delay_shape)
  qed
  from run n e d show ?thesis by blast
qed

theorem exhausted_retries_witness:
  "(0::int) \<le> 3
   \<and> rate_limited (Resolves \<lparr>status = 429, ok = False, statusText = ''Too Many Requests'',
                                        retry_after = Some ''2'', json = Inr (JObj [])\<rparr>)
   \<and> seconds_hint ''2''
   \<and> network_failure (Rejects \<lparr>err_name = ''TypeError'', err_message = ''Failed to fetch'',
                                        err_type = JUndefined, err_provider = JUndefined, err_details = JUndefined\<rparr>)
   \<and> unrecognised_failure (Rejects \<lparr>err_name = ''TypeError'', err_message = ''Load failed'',
                                        err_type = JUndefined, err_provider = JUndefined, err_details = JUndefined\<rparr>)
   \<and> makeRequest \<lparr>apiKey = ''key'', baseURL = ''https://api.test.com'', provider = ''test'', timeout = 5000\<rparr>
        ''/test'' (Some 3)
        (\<lambda>i. if i = 0 then Resolves \<lparr>status = 429, ok = False, statusText = ''Too Many Requests'',
                                        retry_after = Some ''2'', json = Inr (JObj [])\<rparr>
                 else if i = 1 then Rejects \<lparr>err_name = ''TypeError'', err_message = ''Failed to fetch'',
                                        err_type = JUndefined, err_provider = JUndefined, err_details = JUndefined\<rparr>
                 else if i = 2 then Rejects \<lparr>err_name = ''TypeError'', err_message = ''Load failed'',
                                        err_type = JUndefined, err_provider = JUndefined, err_details = JUndefined\<rparr>
                 else Resolves \<lparr>status = 429, ok = False, statusText = ''Too Many Requests'',
                                        retry_after = None, json = Inr (JObj [])\<rparr>)
        (\<lambda>i. 1 / 2)
     = ([NetworkCall 0, Sleep (Num 2000), NetworkCall 1, Sleep (Num 2500), NetworkCall 2,
         Sleep (Num 4500), NetworkCall 3],
        Inl (Some \<lparr>err_name = ''Error'', err_message = ''Rate limit exceeded'',
                   err_type = JStr ''RATE_LIMIT'', err_provider = JStr ''test'',
                   err_details = JObj [(''status'', JNum 429), (''retryAfter'', JNull)]\<rparr>))"
proof -
  let ?env = "\<lambda>i::nat. if i = 0 then Resolves \<lparr>status = 429, ok = False, statusText = ''Too Many Requests'',
                                        retry_after = Some ''2'', json = Inr (JObj [])\<rparr>
                 else if i = 1 then Rejects \<lparr>err_name = ''TypeError'', err_message = ''Failed to fetch'',
                                        err_type = JUndefined, err_provider = JUndefined, err_details = JUndefined\<rparr>
                 else if i = 2 then Rejects \<lparr>err_name = ''TypeError'', err_message = ''Load failed'',
                                        err_type = JUndefined, err_provider = JUndefined, err_details = JUndefined\<rparr>
                 else Resolves \<lparr>status = 429, ok = False, statusText = ''Too Many Requests'',
                                        retry_after = None, json = Inr (JObj [])\<rparr>"
  let ?c = "\<lparr>apiKey = ''key'', baseURL = ''https://api.test.com'', provider = ''test'', timeout = 5000\<rparr>"
  have budget: "(0::int) \<le> 3" by simp
  have pi: "parse_integer ''2'' = Some 2"
    by (simp add: parse_integer_def is_white_space_def is_digit_def digit_value_def digits_value_def)
  have sh: "seconds_hint ''2''" by (simp add: seconds_hint_def pi)
  have fails: "\<forall>i \<le> nat 3.
           (rate_limited (?env i)
              \<and> (case retry_after_hint (?env i) of None \<Rightarrow> True | Some h \<Rightarrow> seconds_hint h))
           \<or> network_failure (?env i) \<or> unrecognised_failure (?env i)"
    by (simp add: AUTH_ERROR_def VALIDATION_ERROR_def sh)
  have rnd: "\<forall>i::nat. (0::real) \<le> 1 / 2 \<and> (1 / 2 :: real) < 1" by simp
  have tn: "to_number 2 = Num 2" "to_number 2000 = Num 2000"
    using to_number_int [of 2] to_number_int [of 2000] by simp_all
  from exhausted_retries [OF budget fails rnd, of ?c "''/test''"]
  obtain e where run: "makeRequest ?c ''/test'' (Some 3) ?env (\<lambda>i. 1 / 2) =
        (retry_trace (retry_delay ?env (\<lambda>i. 1 / 2)) 0 (nat 3), Inl (Some e))" by blast
  have eval: "makeRequest ?c ''/test'' (Some 3) ?env (\<lambda>i. 1 / 2) =
       ([NetworkCall 0, Sleep (Num 2000), NetworkCall 1, Sleep (Num 2500), NetworkCall 2,
         Sleep (Num 4500), NetworkCall 3],
        Inl (Some \<lparr>err_name = ''Error'', err_message = ''Rate limit exceeded'',
                   err_type = JStr ''RATE_LIMIT'', err_provider = JStr ''test'',
                   err_details = JObj [(''status'', JNum 429), (''retryAfter'', JNull)]\<rparr>))"
    by (simp add: makeRequest_def makeRequest_loop.simps [of _ _ _ _ _ 0]
        makeRequest_loop.simps [of _ _ _ _ _ "Suc 0"] makeRequest_loop.simps [of _ _ _ _ _ "Suc (Suc 0)"]
        makeRequest_loop.simps [of _ _ _ _ _ "Suc (Suc (Suc 0))"]
        try_block_def catch_block_def emit_def backoff_half rate_limit_delay_def parseInt_def pi tn
        createError_def AUTH_ERROR_def VALIDATION_ERROR_def RATE_LIMIT_def)
  from run eval sh show ?thesis
    by (simp add: AUTH_ERROR_def VALIDATION_ERROR_def)
qed

text \<open>
  The claim as the specification states it fails in two ways. A 429 response whose
  retry-after header is an HTTP date is followed by a call of \<^verbatim>\<open>_sleep\<close> with NaN,
  which is neither a number of seconds times 1000 nor a backoff delay. And when
  every attempt is rejected with a transport TypeError whose message does not
  mention \<^verbatim>\<open>fetch\<close>, the run retries and then throws that TypeError as it is, not a
  \<^verbatim>\<open>NETWORK_ERROR\<close>.
\<close>

theorem exhausted_retries_counterexample:
  "makeRequest \<lparr>apiKey = ''key'', baseURL = ''https://api.test.com'', provider = ''test'', timeout = 5000\<rparr>
        ''/test'' (Some 1)
        (\<lambda>i. Resolves \<lparr>status = 429, ok = False, statusText = ''Too Many Requests'',
                        retry_after = Some ''Wed, 21 Oct 2015 07:28:00 GMT'', json = Inr (JObj [])\<rparr>)
        (\<lambda>i. 1 / 2)
     = ([NetworkCall 0, Sleep NaN, NetworkCall 1],
        Inl (Some \<lparr>err_name = ''Error'', err_message = ''Rate limit exceeded'',
                   err_type = JStr ''RATE_LIMIT'', err_provider = JStr ''test'',
                   err_details = JObj [(''status'', JNum 429),
                                       (''retryAfter'', JStr ''Wed, 21 Oct 2015 07:28:00 GMT'')]\<rparr>))
   \<and> makeRequest \<lparr>apiKey = ''key'', baseURL = ''https://api.test.com'', provider = ''test'', timeout = 5000\<rparr>
        ''/test'' (Some 1)
        (\<lambda>i. Rejects \<lparr>err_name = ''TypeError'', err_message = ''Load failed'',
                       err_type = JUndefined, err_provider = JUndefined, err_details = JUndefined\<rparr>)
        (\<lambda>i. 1 / 2)
     = ([NetworkCall 0, Sleep (Num 1500), NetworkCall 1],
        Inl (Some \<lparr>err_name = ''TypeError'', err_message = ''Load failed'',
                   err_type = JUndefined, err_provider = JUndefined, err_details = JUndefined\<rparr>))"
proof -
  have pi: "parse_integer ''Wed, 21 Oct 2015 07:28:00 GMT'' = None"
    by (simp add: parse_integer_def is_white_space_def is_digit_def digit_value_def)
  show ?thesis
    by (simp add: makeRequest_def makeRequest_loop.simps [of _ _ _ _ _ 0]
        makeRequest_loop.simps [of _ _ _ _ _ "Suc 0"] makeRequest_loop.simps [of _ _ _ _ _ "Suc (Suc 0)"]
        try_block_def catch_block_def emit_def backoff_half rate_limit_delay_def parseInt_def pi
        createError_def AUTH_ERROR_def VALIDATION_ERROR_def RATE_LIMIT_def)
qed


section \<open>Properties of the scheduler\<close>

subsection \<open>Order of execution\<close>



















subsection \<open>The length of the queue\<close>

lemma length_processQueue:
  "getQueueLength (processQueue now s) =
     (if processing s then getQueueLength s else getQueueLength s - 1)"
  by (cases "queue s") (simp_all add: processQueue_def getQueueLength_def)

lemma length_finally: "getQueueLength (finally_block now s) = getQueueLength s - 1"
  by (simp add: finally_block_def length_processQueue) (simp add: getQueueLength_def)

text \<open>
  C7, as the code has it. \<^verbatim>\<open>getQueueLength\<close> counts the entries waiting behind the
  one in flight. A call of \<^verbatim>\<open>enqueue\<close> raises it by one while an entry is in flight
  and leaves it unchanged on an idle scheduler, whose new entry is shifted out at
  once. It falls by one, if an entry is waiting, when the next entry is shifted
  out: as the entry in flight is fulfilled or rejected, or as a rate-limit wait
  ends. A rate-limit requeue raises it by one until the wait ends and the entry is
  shifted out again, which brings the length back to what it was.
\<close>

theorem queue_length_changes:
  "getQueueLength (step s (Enqueue p now)) =
     (if processing s then getQueueLength s + 1 else getQueueLength s)
   \<and> getQueueLength (step s CheckRateLimitDone) = getQueueLength s
   \<and> (pending s = Some (item, AwaitExecute) \<longrightarrow>
        getQueueLength (step s (ExecuteDone (Inr result) now)) = getQueueLength s - 1
        \<and> (\<not> isRateLimitError error \<longrightarrow>
             getQueueLength (step s (ExecuteDone (Inl error) now)) = getQueueLength s - 1)
        \<and> (isRateLimitError limited \<longrightarrow>
             getQueueLength (step s (ExecuteDone (Inl limited) now)) = getQueueLength s + 1
             \<and> getQueueLength (run s [ExecuteDone (Inl limited) now, WaitForRateLimitDone t])
                 = getQueueLength s))"
proof (intro conjI impI)
  show "getQueueLength (step s (Enqueue p now)) =
     (if processing s then getQueueLength s + 1 else getQueueLength s)"
    by (simp add: length_processQueue) (simp add: getQueueLength_def)
  show "getQueueLength (step s CheckRateLimitDone) = getQueueLength s"
    by (auto simp: getQueueLength_def split: option.splits await_point.splits)
next
  assume p: "pending s = Some (item, AwaitExecute)"
  then show "getQueueLength (step s (ExecuteDone (Inr result) now)) = getQueueLength s - 1"
    by (simp add: length_finally) (simp add: getQueueLength_def)
  { assume "\<not> isRateLimitError error"
    with p show "getQueueLength (step s (ExecuteDone (Inl error) now)) = getQueueLength s - 1"
      by (simp add: length_finally) (simp add: getQueueLength_def) }
  { assume "isRateLimitError limited"
    with p show "getQueueLength (step s (ExecuteDone (Inl limited) now)) = getQueueLength s + 1"
      by (simp add: getQueueLength_def) }
  { assume "isRateLimitError limited"
    with p show "getQueueLength (run s [ExecuteDone (Inl limited) now, WaitForRateLimitDone t])
                 = getQueueLength s"
      by (simp add: length_finally) (simp add: getQueueLength_def) }
qed

theorem queue_length_changes_witness:
  "pending (run new_queue_manager [Enqueue ''openrouter'' 0, Enqueue ''anthropic'' 1, CheckRateLimitDone])
     = Some (\<lparr>request_provider = ''openrouter'', ticket = 0, timestamp = 0\<rparr>, AwaitExecute)
   \<and> \<not> isRateLimitError \<lparr>err_name = ''Error'', err_message = ''Authentication failed'',
          err_type = JStr ''AUTH_ERROR'', err_provider = JStr ''openrouter'', err_details = JNull\<rparr>
   \<and> isRateLimitError \<lparr>err_name = ''Error'', err_message = ''Rate limit exceeded'',
          err_type = JStr ''RATE_LIMIT'', err_provider = JStr ''openrouter'', err_details = JNull\<rparr>
   \<and> getQueueLength (run new_queue_manager [Enqueue ''openrouter'' 0, Enqueue ''anthropic'' 1, CheckRateLimitDone]) = 1
   \<and> getQueueLength (run new_queue_manager [Enqueue ''openrouter'' 0, Enqueue ''anthropic'' 1, CheckRateLimitDone,
         ExecuteDone (Inl \<lparr>err_name = ''Error'', err_message = ''Authentication failed'',
          err_type = JStr ''AUTH_ERROR'', err_provider = JStr ''openrouter'', err_details = JNull\<rparr>) 5]) = 0
   \<and> getQueueLength (run new_queue_manager [Enqueue ''openrouter'' 0, Enqueue ''anthropic'' 1, CheckRateLimitDone,
         ExecuteDone (Inl \<lparr>err_name = ''Error'', err_message = ''Rate limit exceeded'',
          err_type = JStr ''RATE_LIMIT'', err_provider = JStr ''openrouter'', err_details = JNull\<rparr>) 5]) = 2
   \<and> getQueueLength (run new_queue_manager [Enqueue ''openrouter'' 0, Enqueue ''anthropic'' 1, CheckRateLimitDone,
         ExecuteDone (Inl \<lparr>err_name = ''Error'', err_message = ''Rate limit exceeded'',
          err_type = JStr ''RATE_LIMIT'', err_provider = JStr ''openrouter'', err_details = JNull\<rparr>) 5,
         WaitForRateLimitDone 7]) = 1"
  using queue_length_changes
    [where s = "run new_queue_manager [Enqueue ''openrouter'' 0, Enqueue ''anthropic'' 1, CheckRateLimitDone]"
       and item = "\<lparr>request_provider = ''openrouter'', ticket = 0, timestamp = 0\<rparr>"
       and error = "\<lparr>err_name = ''Error'', err_message = ''Authentication failed'',
          err_type = JStr ''AUTH_ERROR'', err_provider = JStr ''openrouter'', err_details = JNull\<rparr>"
       and limited = "\<lparr>err_name = ''Error'', err_message = ''Rate limit exceeded'',
          err_type = JStr ''RATE_LIMIT'', err_provider = JStr ''openrouter'', err_details = JNull\<rparr>"
       and now = 5 and t = 7]
  by (simp add: new_queue_manager_def processQueue_def finally_block_def checkRateLimit_def
        waitForRateLimit_def isRateLimitError_def RATE_LIMIT_def getQueueLength_def)

text \<open>
  The claim as the specification states it fails: a call of \<^verbatim>\<open>enqueue\<close> on a new
  scheduler leaves the length at 0, and the length does not fall when that entry
  is fulfilled.
\<close>

theorem queue_length_counterexample:
  "getQueueLength new_queue_manager = 0
   \<and> getQueueLength (step new_queue_manager (Enqueue ''openrouter'' 0)) = 0
   \<and> observed (run new_queue_manager [Enqueue ''openrouter'' 0, CheckRateLimitDone, ExecuteDone (Inr JNull) 5])
       = [CheckRateLimit 0 None, Execute 0, Resolve 0 JNull]
   \<and> getQueueLength (run new_queue_manager [Enqueue ''openrouter'' 0, CheckRateLimitDone]) = 0
   \<and> getQueueLength (run new_queue_manager [Enqueue ''openrouter'' 0, CheckRateLimitDone, ExecuteDone (Inr JNull) 5]) = 0"
  by (simp add: getQueueLength_def new_queue_manager_def processQueue_def finally_block_def
        checkRateLimit_def)

subsection \<open>The rate-limit state\<close>

lemma rateLimits_processQueue: "rateLimits (processQueue now s) = rateLimits s"
  by (cases "queue s") (simp_all add: processQueue_def)

lemma rateLimits_finally: "rateLimits (finally_block now s) = rateLimits s"
  by (simp add: finally_block_def rateLimits_processQueue)

lemma updateRateLimit_entry:
  "updateRateLimit limits p now =
     limits(p \<mapsto>
       (case limits p of
          None \<Rightarrow> \<lparr>count = 1, resetTime = now + 60000\<rparr>
        | Some l \<Rightarrow> if resetTime l \<le> now then \<lparr>count = 1, resetTime = now + 60000\<rparr>
                    else \<lparr>count = count l + 1, resetTime = resetTime l\<rparr>))"
proof (cases "limits p")
  case None
  then show ?thesis by (simp add: updateRateLimit_def)
next
  case (Some l)
  obtain n r where l: "l = \<lparr>count = n, resetTime = r\<rparr>" by (cases l) simp
  show ?thesis unfolding Some l by (simp add: updateRateLimit_def Some l)
qed

text \<open>
  C8, as the code has it. A new scheduler has no rate-limit state for any
  provider. The state of a provider is created by the first successful attempt for
  it (count 1, reset 60 s later) and updated by every later successful attempt: a
  new window when the old one has elapsed, one more in the count otherwise. A
  failed attempt, like every other event, leaves the states as they are.
\<close>

theorem rate_limit_state_updates:
  "rateLimits new_queue_manager p = None
   \<and> rateLimits (step s (Enqueue p now)) = rateLimits s
   \<and> rateLimits (step s CheckRateLimitDone) = rateLimits s
   \<and> rateLimits (step s (WaitForRateLimitDone now)) = rateLimits s
   \<and> rateLimits (step s (ExecuteDone (Inl error) now)) = rateLimits s
   \<and> (pending s = Some (item, AwaitExecute) \<longrightarrow>
        rateLimits (step s (ExecuteDone (Inr result) now)) =
          (rateLimits s)(request_provider item \<mapsto>
             (case rateLimits s (request_provider item) of
                None \<Rightarrow> \<lparr>count = 1, resetTime = now + 60000\<rparr>
              | Some l \<Rightarrow> if resetTime l \<le> now then \<lparr>count = 1, resetTime = now + 60000\<rparr>
                          else \<lparr>count = count l + 1, resetTime = resetTime l\<rparr>)))"
proof (intro conjI impI)
  show "rateLimits new_queue_manager p = None" by (simp add: new_queue_manager_def)
  show "rateLimits (step s (Enqueue p now)) = rateLimits s" by (simp add: rateLimits_processQueue)
  show "rateLimits (step s CheckRateLimitDone) = rateLimits s"
    by (auto split: option.splits await_point.splits)
  show "rateLimits (step s (WaitForRateLimitDone now)) = rateLimits s"
    by (auto simp: rateLimits_finally split: option.splits await_point.splits)
  show "rateLimits (step s (ExecuteDone (Inl error) now)) = rateLimits s"
    by (auto simp: rateLimits_finally split: option.splits await_point.splits)
next
  assume "pending s = Some (item, AwaitExecute)"
  then show "rateLimits (step s (ExecuteDone (Inr result) now)) =
          (rateLimits s)(request_provider item \<mapsto>
             (case rateLimits s (request_provider item) of
                None \<Rightarrow> \<lparr>count = 1, resetTime = now + 60000\<rparr>
              | Some l \<Rightarrow> if resetTime l \<le> now then \<lparr>count = 1, resetTime = now + 60000\<rparr>
                          else \<lparr>count = count l + 1, resetTime = resetTime l\<rparr>))"
    by (simp add: rateLimits_finally updateRateLimit_entry)
qed

theorem rate_limit_state_updates_witness:
  "pending (run new_queue_manager [Enqueue ''openrouter'' 0, CheckRateLimitDone])
     = Some (\<lparr>request_provider = ''openrouter'', ticket = 0, timestamp = 0\<rparr>, AwaitExecute)
   \<and> rateLimits (run new_queue_manager [Enqueue ''openrouter'' 0, CheckRateLimitDone]) ''openrouter'' = None
   \<and> rateLimits (run new_queue_manager [Enqueue ''openrouter'' 0, CheckRateLimitDone,
                                          ExecuteDone (Inr JNull) 5]) ''openrouter''
       = Some \<lparr>count = 1, resetTime = 60005\<rparr>"
  using rate_limit_state_updates
    [where s = "run new_queue_manager [Enqueue ''openrouter'' 0, CheckRateLimitDone]"
       and item = "\<lparr>request_provider = ''openrouter'', ticket = 0, timestamp = 0\<rparr>"
       and result = JNull and now = 5]
  by (simp add: new_queue_manager_def processQueue_def finally_block_def checkRateLimit_def
        updateRateLimit_def)

text \<open>
  The claim as the specification states it fails: after the first request for a
  provider has been observed and its attempt has failed, there is no state for
  the provider.
\<close>

theorem failed_attempt_counterexample:
  "rateLimits (run new_queue_manager
      [Enqueue ''openrouter'' 0, CheckRateLimitDone,
       ExecuteDone (Inl \<lparr>err_name = ''Error'', err_message = ''API error: boom'',
          err_type = JStr ''GENERIC_ERROR'', err_provider = JStr ''openrouter'', err_details = JNull\<rparr>) 5])
     ''openrouter'' = None
   \<and> observed (run new_queue_manager
      [Enqueue ''openrouter'' 0, CheckRateLimitDone,
       ExecuteDone (Inl \<lparr>err_name = ''Error'', err_message = ''API error: boom'',
          err_type = JStr ''GENERIC_ERROR'', err_provider = JStr ''openrouter'', err_details = JNull\<rparr>) 5])
     = [CheckRateLimit 0 None, Execute 0,
        Reject 0 \<lparr>err_name = ''Error'', err_message = ''API error: boom'',
          err_type = JStr ''GENERIC_ERROR'', err_provider = JStr ''openrouter'', err_details = JNull\<rparr>]"
  by (simp add: new_queue_manager_def processQueue_def finally_block_def checkRateLimit_def
        isRateLimitError_def RATE_LIMIT_def)

text \<open>
  C9. When the execution of an entry throws a \<^verbatim>\<open>RATE_LIMIT\<close> error and its provider
  has no rate-limit state, \<^verbatim>\<open>_waitForRateLimit\<close> and the \<^verbatim>\<open>_checkRateLimit\<close> of the next
  drain both return without a timer, and the next call of \<^verbatim>\<open>execute\<close> is for the
  same entry: the scheduler is back in the state it was in, with only these three
  observations added.
\<close>

theorem requeue_without_state_no_delay:
  assumes "pending s = Some (item, AwaitExecute)"
    and "isRateLimitError error"
    and "rateLimits s (request_provider item) = None"
  shows "waitForRateLimit (rateLimits s) (request_provider item) now = None
     \<and> checkRateLimit (rateLimits s) (request_provider item) t = None
     \<and> run s [ExecuteDone (Inl error) now, WaitForRateLimitDone t, CheckRateLimitDone] =
         s\<lparr>processing := True,
           observed := observed s @
             [WaitForRateLimit (ticket item) None, CheckRateLimit (ticket item) None,
              Execute (ticket item)]\<rparr>"
  using assms
  by (simp add: waitForRateLimit_def checkRateLimit_def finally_block_def processQueue_def)

theorem requeue_without_state_no_delay_witness:
  "pending (run new_queue_manager [Enqueue ''openrouter'' 0, Enqueue ''anthropic'' 1, CheckRateLimitDone])
     = Some (\<lparr>request_provider = ''openrouter'', ticket = 0, timestamp = 0\<rparr>, AwaitExecute)
   \<and> isRateLimitError \<lparr>err_name = ''Error'', err_message = ''Rate limit exceeded'',
          err_type = JStr ''RATE_LIMIT'', err_provider = JStr ''openrouter'', err_details = JNull\<rparr>
   \<and> rateLimits (run new_queue_manager [Enqueue ''openrouter'' 0, Enqueue ''anthropic'' 1, CheckRateLimitDone])
        ''openrouter'' = None
   \<and> observed (run new_queue_manager [Enqueue ''openrouter'' 0, Enqueue ''anthropic'' 1, CheckRateLimitDone,
         ExecuteDone (Inl \<lparr>err_name = ''Error'', err_message = ''Rate limit exceeded'',
            err_type = JStr ''RATE_LIMIT'', err_provider = JStr ''openrouter'', err_details = JNull\<rparr>) 5,
         WaitForRateLimitDone 5, CheckRateLimitDone])
     = [CheckRateLimit 0 None, Execute 0, WaitForRateLimit 0 None, CheckRateLimit 0 None, Execute 0]"
  using requeue_without_state_no_delay
    [where s = "run new_queue_manager [Enqueue ''openrouter'' 0, Enqueue ''anthropic'' 1, CheckRateLimitDone]"
       and item = "\<lparr>request_provider = ''openrouter'', ticket = 0, timestamp = 0\<rparr>"
       and error = "\<lparr>err_name = ''Error'', err_message = ''Rate limit exceeded'',
            err_type = JStr ''RATE_LIMIT'', err_provider = JStr ''openrouter'', err_details = JNull\<rparr>"
       and now = 5 and t = 5]
  by (simp add: new_queue_manager_def processQueue_def finally_block_def checkRateLimit_def
        waitForRateLimit_def isRateLimitError_def RATE_LIMIT_def)

end
